theory Spec2Isabelle
  imports Main "HOL-Library.Word"
begin

unbundle bit_operations_syntax

section \<open>Byte buffers and the DataView reads\<close>

text \<open>
  An ArrayBuffer is a list of bytes.  JavaScript numbers that hold offsets, sizes and
  decoded fields are modelled as \<open>int\<close>: every value the parsers compute stays far
  below \<open>2 ^ 53\<close>, where the arithmetic of doubles is exact.  A DataView read outside
  the buffer throws a RangeError, which is the value \<open>Inl RangeError\<close>.
\<close>

type_synonym byte = "8 word"
type_synonym bytes = "byte list"

datatype error = RangeError

definition bindE :: "error + 'a \<Rightarrow> ('a \<Rightarrow> error + 'b) \<Rightarrow> error + 'b" where
  "bindE m f = (case m of Inl e \<Rightarrow> Inl e | Inr x \<Rightarrow> f x)"

definition in_range :: "bytes \<Rightarrow> int \<Rightarrow> int \<Rightarrow> bool" where
  "in_range buf off n = (0 \<le> off \<and> off + n \<le> int (length buf))"

definition byte_at :: "bytes \<Rightarrow> int \<Rightarrow> int" where
  "byte_at buf off = uint (buf ! nat off)"

definition getUint8 :: "bytes \<Rightarrow> int \<Rightarrow> error + int" where
  "getUint8 buf off =
     (if in_range buf off 1 then Inr (byte_at buf off) else Inl RangeError)"

definition setUint8 :: "bytes \<Rightarrow> int \<Rightarrow> int \<Rightarrow> error + bytes" where
  "setUint8 buf off v =
     (if in_range buf off 1 then Inr (buf[nat off := word_of_int v]) else Inl RangeError)"

definition getUint16 :: "bytes \<Rightarrow> int \<Rightarrow> error + int" where
  "getUint16 buf off =
     (if in_range buf off 2
      then Inr (byte_at buf off + 256 * byte_at buf (off + 1))
      else Inl RangeError)"

definition getUint32 :: "bytes \<Rightarrow> int \<Rightarrow> error + int" where
  "getUint32 buf off =
     (if in_range buf off 4
      then Inr (byte_at buf off + 256 * byte_at buf (off + 1)
                + 65536 * byte_at buf (off + 2) + 16777216 * byte_at buf (off + 3))
      else Inl RangeError)"

definition toInt32 :: "int \<Rightarrow> int" where
  "toInt32 v = (if v < 2147483648 then v else v - 4294967296)"

definition getInt32 :: "bytes \<Rightarrow> int \<Rightarrow> error + int" where
  "getInt32 buf off = bindE (getUint32 buf off) (\<lambda>v. Inr (toInt32 v))"

text \<open>
  \<open>new Uint8Array(buffer, byteOffset, length)\<close> is a view: it keeps the whole
  underlying buffer and throws a RangeError when the window leaves it.
\<close>

record u8view =
  buffer :: bytes
  byteOffset :: int
  view_length :: int

definition newUint8Array :: "bytes \<Rightarrow> int \<Rightarrow> int \<Rightarrow> error + u8view" where
  "newUint8Array buf off n =
     (if in_range buf off n
      then Inr \<lparr>buffer = buf, byteOffset = off, view_length = n\<rparr>
      else Inl RangeError)"

text \<open>\<open>Array.from(view)\<close>: the bytes the view shows.\<close>

definition Array_from :: "u8view \<Rightarrow> bytes" where
  "Array_from v = take (nat (view_length v)) (drop (nat (byteOffset v)) (buffer v))"

text \<open>A fresh \<open>Uint8Array\<close> that owns exactly its bytes.\<close>

definition fresh_u8 :: "bytes \<Rightarrow> u8view" where
  "fresh_u8 bs = \<lparr>buffer = bs, byteOffset = 0, view_length = int (length bs)\<rparr>"

text \<open>
  \<open>new TextDecoder('utf-8').decode(view)\<close> is a total function of the bytes of the view:
  malformed input is replaced by U+FFFD and a leading byte order mark is dropped, never
  rejected.  The decoder itself is not modelled: a decoded string is represented by the
  bytes it was decoded from, so that the empty string is \<open>[]\<close> and equal bytes stand
  for equal strings; two different byte lists may stand for the same JavaScript string.
\<close>

type_synonym utf8_text = bytes

definition decode_view :: "bytes \<Rightarrow> int \<Rightarrow> int \<Rightarrow> error + utf8_text" where
  "decode_view buf off n = bindE (newUint8Array buf off n) (\<lambda>v. Inr (Array_from v))"

section \<open>raw\_parser.js (src/unnamed/part\_000): XOR de-obfuscation\<close>

text \<open>
  \<open>findSequence(array, sequence)\<close> reads \<open>array.length\<close> and \<open>array[i]\<close>.  A plain
  array and a Uint8Array have both; a DataView has neither, so both read \<open>undefined\<close>
  (the value \<open>None\<close>).
\<close>

datatype js_arraylike = JSArray "int list" | Uint8ArrayOf bytes | DataViewOf bytes

fun js_length :: "js_arraylike \<Rightarrow> int option" where
  "js_length (JSArray xs) = Some (int (length xs))"
| "js_length (Uint8ArrayOf bs) = Some (int (length bs))"
| "js_length (DataViewOf bs) = None"

fun js_index :: "js_arraylike \<Rightarrow> int \<Rightarrow> int option" where
  "js_index (JSArray xs) i = (if 0 \<le> i \<and> i < int (length xs) then Some (xs ! nat i) else None)"
| "js_index (Uint8ArrayOf bs) i =
     (if 0 \<le> i \<and> i < int (length bs) then Some (uint (bs ! nat i)) else None)"
| "js_index (DataViewOf bs) i = None"

text \<open>The inner loop over \<open>j\<close>: \<open>found\<close> stays true unless some element differs.\<close>

function findSequence_inner :: "js_arraylike \<Rightarrow> int list \<Rightarrow> int \<Rightarrow> nat \<Rightarrow> bool" where
  "findSequence_inner array sequence i j =
     (if j < length sequence
      then (if js_index array (i + int j) \<noteq> Some (sequence ! j) then False
            else findSequence_inner array sequence i (Suc j))
      else True)"
  by pat_completeness auto
termination
  by (relation "measure (\<lambda>(array, sequence, i, j). length sequence - j)") auto

declare findSequence_inner.simps [simp del]

text \<open>
  The outer loop runs while \<open>i <= array.length - sequence.length\<close>.  With
  \<open>array.length\<close> undefined the bound is NaN, the comparison is false and the loop
  body never runs.
\<close>

function findSequence_outer :: "js_arraylike \<Rightarrow> int list \<Rightarrow> int \<Rightarrow> int \<Rightarrow> int" where
  "findSequence_outer array sequence bound i =
     (if i \<le> bound
      then (if findSequence_inner array sequence i 0 then i
            else findSequence_outer array sequence bound (i + 1))
      else -1)"
  by pat_completeness auto
termination
  by (relation "measure (\<lambda>(array, sequence, bound, i). nat (bound + 1 - i))") auto

declare findSequence_outer.simps [simp del]

definition findSequence :: "js_arraylike \<Rightarrow> int list \<Rightarrow> int" where
  "findSequence array sequence =
     (case js_length array of
        None \<Rightarrow> -1
      | Some n \<Rightarrow> findSequence_outer array sequence (n - int (length sequence)) 0)"

definition marker :: "int list" where
  "marker = [0x76, 0x36, 0x76, 0x36, 0x35, 0x35, 0x35, 0x76, 0x36, 0x76, 0x36]"

text \<open>
  The length computed in \<open>parse\<close>: the search is handed \<open>this.dataView\<close> itself.
\<close>

definition xoredDataLength :: "bytes \<Rightarrow> int" where
  "xoredDataLength buf =
     (let sequenceIndex = findSequence (DataViewOf buf) marker
      in if sequenceIndex \<noteq> -1 then sequenceIndex else int (length buf))"

text \<open>The loop \<open>for (i = 0; i < xoredDataLength; i++) setUint8(i, getUint8(i) ^ xorKey)\<close>.\<close>

function xorLoop :: "int \<Rightarrow> int \<Rightarrow> int \<Rightarrow> bytes \<Rightarrow> error + bytes" where
  "xorLoop xorKey len i buf =
     (if i < len
      then (case getUint8 buf i of
              Inl e \<Rightarrow> Inl e
            | Inr v \<Rightarrow> (case setUint8 buf i (v XOR xorKey) of
                         Inl e \<Rightarrow> Inl e
                       | Inr buf' \<Rightarrow> xorLoop xorKey len (i + 1) buf'))
      else Inr buf)"
  by pat_completeness auto
termination
  by (relation "measure (\<lambda>(xorKey, len, i, buf). nat (len - i))") auto

declare xorLoop.simps [simp del]

definition xorStep :: "bytes \<Rightarrow> error + bytes" where
  "xorStep buf =
     bindE (getUint8 buf 0x10) (\<lambda>b.
       if b \<noteq> 0
       then (let len = xoredDataLength buf
             in bindE (getUint8 buf 0x10) (\<lambda>xorKey. xorLoop xorKey len 0 buf))
       else Inr buf)"


section \<open>The part payload parsers\<close>

text \<open>
  The repository holds two versions of \<open>PartDataParser\<close>: src/part\_data\_parser.js
  (definitions prefixed \<open>PDP\<close>) and src/unnamed/part\_001 (prefixed \<open>P001\<close>).  The
  functions whose text is the same in both files are defined once, without a prefix.
  The result objects of both have one type here, so that they can be compared: a field
  one version does not write is absent (\<open>None\<close>), and the two shapes of the
  \<open>sub_type_09\<close> object are two constructors.
\<close>

record part_header =
  part_size :: int
  part_x :: int
  part_y :: int
  part_rotation :: "int option"
  visibility :: int
  part_group_name_size :: int
  part_group_name :: utf8_text

text \<open>
  \<open>pin_sub_type_00 net_index diode_reading_size diode_reading\<close>, and
  \<open>pin_sub_type_0k int1 int2\<close> where \<open>int2\<close> is only written when \<open>int1 > 0\<close>.
\<close>

datatype pin_sub_part =
    pin_sub_type_00 int int utf8_text
  | pin_sub_type_01 int "int option"
  | pin_sub_type_02 int "int option"
  | pin_sub_type_03 int "int option"

record pin =
  pin_un1 :: int
  pin_x :: int
  pin_y :: int
  pin_un2 :: int
  pin_rotation :: int
  pin_name_size :: int
  pin_name :: utf8_text
  pin_height :: int
  pin_width :: int
  pin_shape :: int
  pin_netIndex :: int

text \<open>
  The fields, in order:
  \<^item> \<open>sub_type_01 block_size layer x1 y1 padding_size\<close>
  \<^item> \<open>sub_type_05 block_size layer x1 y1 x2 y2 scale\<close>
  \<^item> \<open>sub_type_06 block_size layer x y font_size font_scale visibility label_size label\<close>
  \<^item> \<open>sub_type_09 block_size pins\<close> (src/unnamed/part\_001)
  \<^item> \<open>sub_type_09_single block_size un1 x y un2 un3 pin_name_size pin_name height width
    sub_parts un4\<close> (src/part\_data\_parser.js)
\<close>

datatype sub_block =
    sub_type_01 int int int int int
  | sub_type_05 int int int int int int int
  | sub_type_06 int int int int int int int int utf8_text
  | sub_type_09 int "pin list"
  | sub_type_09_single int int int int int int int utf8_text int int "pin_sub_part list" int

record part_payload =
  header :: part_header
  sub_blocks :: "sub_block list"

text \<open>
  \<open>if (size > 0) { name = decode(new Uint8Array(buffer, offset, size)); offset += size }\<close>,
  as written for the group name, the label, the pin name and the diode reading.
\<close>

definition readName :: "bytes \<Rightarrow> int \<Rightarrow> int \<Rightarrow> error + (utf8_text \<times> int)" where
  "readName buf off n =
     (if n > 0
      then bindE (decode_view buf off n) (\<lambda>name. Inr (name, off + n))
      else Inr ([], off))"

subsection \<open>Functions shared by both versions\<close>

definition parseSubType01 :: "bytes \<Rightarrow> int \<Rightarrow> error + (sub_block \<times> int)" where
  "parseSubType01 buf off =
     bindE (getUint32 buf off) (\<lambda>blockSize.
     bindE (getUint32 buf (off + 4)) (\<lambda>layer.
     bindE (getUint32 buf (off + 8)) (\<lambda>x1.
     bindE (getUint32 buf (off + 12)) (\<lambda>y1.
       let paddingSize = blockSize - 12
       in Inr (sub_type_01 blockSize layer x1 y1 paddingSize, off + 16 + paddingSize)))))"

definition parseSubType05 :: "bytes \<Rightarrow> int \<Rightarrow> error + (sub_block \<times> int)" where
  "parseSubType05 buf off =
     bindE (getUint32 buf off) (\<lambda>blockSize.
     bindE (getUint32 buf (off + 4)) (\<lambda>layer.
     bindE (getUint32 buf (off + 8)) (\<lambda>x1.
     bindE (getUint32 buf (off + 12)) (\<lambda>y1.
     bindE (getUint32 buf (off + 16)) (\<lambda>x2.
     bindE (getUint32 buf (off + 20)) (\<lambda>y2.
     bindE (getUint32 buf (off + 24)) (\<lambda>scale.
       Inr (sub_type_05 blockSize layer x1 y1 x2 y2 scale, off + 28 + 4))))))))"

definition parseSubType06 :: "bytes \<Rightarrow> int \<Rightarrow> error + (sub_block \<times> int)" where
  "parseSubType06 buf off =
     bindE (getUint32 buf off) (\<lambda>blockSize.
     bindE (getUint32 buf (off + 4)) (\<lambda>layer.
     bindE (getUint32 buf (off + 8)) (\<lambda>x.
     bindE (getUint32 buf (off + 12)) (\<lambda>y.
     bindE (getUint32 buf (off + 16)) (\<lambda>fontSize.
     bindE (getUint32 buf (off + 20)) (\<lambda>fontScale.
     bindE (getUint8 buf (off + 28)) (\<lambda>vis.
     bindE (getUint32 buf (off + 30)) (\<lambda>labelSize.
     bindE (readName buf (off + 34) labelSize) (\<lambda>(label, off').
       Inr (sub_type_06 blockSize layer x y fontSize fontScale vis labelSize label,
            off'))))))))))"

definition parsePinSubType00 :: "bytes \<Rightarrow> int \<Rightarrow> error + (pin_sub_part \<times> int)" where
  "parsePinSubType00 buf off =
     bindE (getUint32 buf off) (\<lambda>netIndex.
     bindE (getUint32 buf (off + 4)) (\<lambda>diodeReadingSize.
     bindE (readName buf (off + 8) diodeReadingSize) (\<lambda>(diodeReading, off').
       Inr (pin_sub_type_00 netIndex diodeReadingSize diodeReading, off'))))"

text \<open>
  \<open>parsePinSubType01\<close>, \<open>02\<close> and \<open>03\<close> have one body: \<open>int1\<close>, then \<open>int2\<close> when
  \<open>int1 > 0\<close>; only the tag of the result differs.
\<close>

definition parsePinInts :: "bytes \<Rightarrow> int \<Rightarrow> error + ((int \<times> int option) \<times> int)" where
  "parsePinInts buf off =
     bindE (getUint32 buf off) (\<lambda>int1.
       if int1 > 0
       then bindE (getUint32 buf (off + 4)) (\<lambda>int2. Inr ((int1, Some int2), off + 8))
       else Inr ((int1, None), off + 4))"

definition parsePinSubType01 :: "bytes \<Rightarrow> int \<Rightarrow> error + (pin_sub_part \<times> int)" where
  "parsePinSubType01 buf off =
     bindE (parsePinInts buf off) (\<lambda>((int1, int2), off'). Inr (pin_sub_type_01 int1 int2, off'))"

definition parsePinSubType02 :: "bytes \<Rightarrow> int \<Rightarrow> error + (pin_sub_part \<times> int)" where
  "parsePinSubType02 buf off =
     bindE (parsePinInts buf off) (\<lambda>((int1, int2), off'). Inr (pin_sub_type_02 int1 int2, off'))"

definition parsePinSubType03 :: "bytes \<Rightarrow> int \<Rightarrow> error + (pin_sub_part \<times> int)" where
  "parsePinSubType03 buf off =
     bindE (parsePinInts buf off) (\<lambda>((int1, int2), off'). Inr (pin_sub_type_03 int1 int2, off'))"

text \<open>\<open>null\<close> is \<open>None\<close>; the cursor is returned with it.\<close>

definition parsePinSubType :: "bytes \<Rightarrow> int \<Rightarrow> error + (pin_sub_part option \<times> int)" where
  "parsePinSubType buf off =
     (if off \<ge> int (length buf) then Inr (None, off)
      else bindE (getUint8 buf off) (\<lambda>pinType.
        if pinType = 0x00
          then bindE (parsePinSubType00 buf (off + 1)) (\<lambda>(p, off'). Inr (Some p, off'))
        else if pinType = 0x01
          then bindE (parsePinSubType01 buf (off + 1)) (\<lambda>(p, off'). Inr (Some p, off'))
        else if pinType = 0x02
          then bindE (parsePinSubType02 buf (off + 1)) (\<lambda>(p, off'). Inr (Some p, off'))
        else if pinType = 0x03
          then bindE (parsePinSubType03 buf (off + 1)) (\<lambda>(p, off'). Inr (Some p, off'))
        else Inr (None, off + 1)))"

subsection \<open>Facts about the reads, used for termination\<close>

lemma bindE_Inr_iff: "bindE m f = Inr y \<longleftrightarrow> (\<exists>x. m = Inr x \<and> f x = Inr y)"
  by (cases m) (simp_all add: bindE_def)

lemma bindE_Inl [simp]: "bindE (Inl e) f = Inl e"
  by (simp add: bindE_def)

lemma bindE_Inr [simp]: "bindE (Inr x) f = f x"
  by (simp add: bindE_def)

lemma byte_at_nonneg: "0 \<le> byte_at buf off"
  by (simp add: byte_at_def)

lemma getUint8_Inr: "getUint8 buf off = Inr v \<Longrightarrow> in_range buf off 1 \<and> 0 \<le> v"
  by (auto simp: getUint8_def byte_at_nonneg split: if_splits)

lemma getUint32_Inr: "getUint32 buf off = Inr v \<Longrightarrow> in_range buf off 4 \<and> 0 \<le> v"
  using byte_at_nonneg [of buf off] byte_at_nonneg [of buf "off + 1"]
    byte_at_nonneg [of buf "off + 2"] byte_at_nonneg [of buf "off + 3"]
  by (auto simp: getUint32_def split: if_splits)

lemma readName_advances: "readName buf off n = Inr (s, off') \<Longrightarrow> off \<le> off'"
  by (auto simp: readName_def bindE_Inr_iff split: if_splits)

lemma parseSubType01_advances:
  "parseSubType01 buf off = Inr (sb, off') \<Longrightarrow> off + 4 \<le> off'"
  by (auto simp: parseSubType01_def bindE_Inr_iff Let_def dest!: getUint32_Inr)

lemma parseSubType05_advances:
  "parseSubType05 buf off = Inr (sb, off') \<Longrightarrow> off + 4 \<le> off'"
  by (auto simp: parseSubType05_def bindE_Inr_iff)

lemma parseSubType06_advances:
  "parseSubType06 buf off = Inr (sb, off') \<Longrightarrow> off + 4 \<le> off'"
  by (auto simp: parseSubType06_def bindE_Inr_iff dest!: readName_advances)

lemma parsePinInts_advances:
  "parsePinInts buf off = Inr (r, off') \<Longrightarrow> off + 4 \<le> off'"
  by (auto simp: parsePinInts_def bindE_Inr_iff split: if_splits)

lemma parsePinSubType_advances:
  "parsePinSubType buf off = Inr (Some p, off') \<Longrightarrow> off + 5 \<le> off'"
  by (auto simp: parsePinSubType_def parsePinSubType00_def parsePinSubType01_def
        parsePinSubType02_def parsePinSubType03_def bindE_Inr_iff
      split: if_splits dest!: readName_advances parsePinInts_advances)


subsection \<open>src/part\_data\_parser.js\<close>

text \<open>\<open>parseHeader\<close>: the four bytes at 0x10 are skipped, the header has no rotation.\<close>

definition PDP_parseHeader :: "bytes \<Rightarrow> int \<Rightarrow> error + (part_header \<times> int)" where
  "PDP_parseHeader buf off =
     bindE (getUint32 buf off) (\<lambda>partSize.
     bindE (getUint32 buf (off + 8)) (\<lambda>partX.
     bindE (getUint32 buf (off + 12)) (\<lambda>partY.
     bindE (getUint8 buf (off + 20)) (\<lambda>vis.
     bindE (getUint32 buf (off + 22)) (\<lambda>nameSize.
     bindE (readName buf (off + 26) nameSize) (\<lambda>(name, off').
       Inr (\<lparr>part_size = partSize, part_x = partX, part_y = partY, part_rotation = None,
             visibility = vis, part_group_name_size = nameSize, part_group_name = name\<rparr>,
            off')))))))"

text \<open>The loop \<open>while (this.offset < blockEnd - 4)\<close> over the pin sub-parts.\<close>

function PDP_subParts_loop ::
  "bytes \<Rightarrow> int \<Rightarrow> int \<Rightarrow> pin_sub_part list \<Rightarrow> error + (pin_sub_part list \<times> int)" where
  "PDP_subParts_loop buf blockEnd off subParts =
     (if off < blockEnd - 4
      then (case parsePinSubType buf off of
              Inl e \<Rightarrow> Inl e
            | Inr (None, off') \<Rightarrow> Inr (subParts, off')
            | Inr (Some subPart, off') \<Rightarrow>
                PDP_subParts_loop buf blockEnd off' (subParts @ [subPart]))
      else Inr (subParts, off))"
  by pat_completeness auto
termination
  by (relation "measure (\<lambda>(buf, blockEnd, off, subParts). nat (blockEnd - 4 - off))")
     (auto dest!: parsePinSubType_advances)

declare PDP_subParts_loop.simps [simp del]

definition PDP_parseSubType09 :: "bytes \<Rightarrow> int \<Rightarrow> error + (sub_block \<times> int)" where
  "PDP_parseSubType09 buf off =
     bindE (getUint32 buf off) (\<lambda>blockSize.
       let blockEnd = off + 4 + blockSize in
     bindE (getUint32 buf (off + 4)) (\<lambda>un1.
     bindE (getUint32 buf (off + 8)) (\<lambda>x.
     bindE (getUint32 buf (off + 12)) (\<lambda>y.
     bindE (getUint32 buf (off + 16)) (\<lambda>un2.
     bindE (getUint32 buf (off + 20)) (\<lambda>un3.
     bindE (getUint32 buf (off + 24)) (\<lambda>pinNameSize.
     bindE (readName buf (off + 28) pinNameSize) (\<lambda>(pinName, off1).
     bindE (getUint32 buf off1) (\<lambda>height.
     bindE (getUint32 buf (off1 + 4)) (\<lambda>width.
     bindE (PDP_subParts_loop buf blockEnd (off1 + 8) []) (\<lambda>(subParts, off2).
     bindE (getUint32 buf off2) (\<lambda>un4.
       Inr (sub_type_09_single blockSize un1 x y un2 un3 pinNameSize pinName height width
              subParts un4,
            off2 + 4)))))))))))))"

definition PDP_parseSubBlock :: "bytes \<Rightarrow> int \<Rightarrow> error + (sub_block option \<times> int)" where
  "PDP_parseSubBlock buf off =
     (if off \<ge> int (length buf) then Inr (None, off)
      else bindE (getUint8 buf off) (\<lambda>subTypeIdentifier.
        if subTypeIdentifier = 0x01
          then bindE (parseSubType01 buf (off + 1)) (\<lambda>(b, off'). Inr (Some b, off'))
        else if subTypeIdentifier = 0x05
          then bindE (parseSubType05 buf (off + 1)) (\<lambda>(b, off'). Inr (Some b, off'))
        else if subTypeIdentifier = 0x06
          then bindE (parseSubType06 buf (off + 1)) (\<lambda>(b, off'). Inr (Some b, off'))
        else if subTypeIdentifier = 0x09
          then bindE (PDP_parseSubType09 buf (off + 1)) (\<lambda>(b, off'). Inr (Some b, off'))
        else Inr (None, off + 1)))"

lemma PDP_subParts_loop_advances:
  "PDP_subParts_loop buf blockEnd off subParts = Inr (r, off') \<Longrightarrow> off \<le> off'"
proof (induction buf blockEnd off subParts rule: PDP_subParts_loop.induct)
  case (1 buf blockEnd off subParts)
  note unfold = PDP_subParts_loop.simps [of buf blockEnd off subParts]
  show ?case
  proof (cases "off < blockEnd - 4")
    case False
    with "1.prems" show ?thesis by (simp add: unfold)
  next
    case True
    show ?thesis
    proof (cases "parsePinSubType buf off")
      case (Inl e)
      with True "1.prems" show ?thesis by (simp add: unfold)
    next
      case (Inr res)
      obtain sp o1 where res: "res = (sp, o1)" by (cases res)
      show ?thesis
      proof (cases sp)
        case None
        with True Inr res "1.prems" have "off' = o1" by (simp add: unfold)
        moreover from Inr res None have "off \<le> o1"
          by (auto simp: parsePinSubType_def bindE_Inr_iff split: if_splits prod.splits)
        ultimately show ?thesis by simp
      next
        case (Some p)
        with Inr res have step: "parsePinSubType buf off = Inr (Some p, o1)" by simp
        from True step "1.prems"
        have "PDP_subParts_loop buf blockEnd o1 (subParts @ [p]) = Inr (r, off')"
          by (simp add: unfold)
        with "1.IH" [OF True step refl refl] have "o1 \<le> off'" by simp
        with parsePinSubType_advances [OF step] show ?thesis by simp
      qed
    qed
  qed
qed

lemma PDP_parseSubType09_advances:
  "PDP_parseSubType09 buf off = Inr (sb, off') \<Longrightarrow> off + 4 \<le> off'"
  by (auto simp: PDP_parseSubType09_def bindE_Inr_iff Let_def
      dest!: readName_advances PDP_subParts_loop_advances)

lemma PDP_parseSubBlock_advances:
  "PDP_parseSubBlock buf off = Inr (Some sb, off') \<Longrightarrow> off + 5 \<le> off'"
  by (auto simp: PDP_parseSubBlock_def bindE_Inr_iff split: if_splits
      dest!: parseSubType01_advances parseSubType05_advances parseSubType06_advances
        PDP_parseSubType09_advances)

text \<open>The loop \<open>while (this.offset < this.dataView.byteLength)\<close> of \<open>parse\<close>.\<close>

function PDP_subBlocks_loop :: "bytes \<Rightarrow> int \<Rightarrow> sub_block list \<Rightarrow> error + sub_block list" where
  "PDP_subBlocks_loop buf off subs =
     (if off < int (length buf)
      then (case PDP_parseSubBlock buf off of
              Inl e \<Rightarrow> Inl e
            | Inr (None, off') \<Rightarrow> Inr subs
            | Inr (Some subBlock, off') \<Rightarrow> PDP_subBlocks_loop buf off' (subs @ [subBlock]))
      else Inr subs)"
  by pat_completeness auto
termination
  by (relation "measure (\<lambda>(buf, off, subs). nat (int (length buf) - off))")
     (auto dest!: PDP_parseSubBlock_advances)

declare PDP_subBlocks_loop.simps [simp del]

text \<open>\<open>arrayBuffer.slice(0, end)\<close> for a non-negative \<open>end\<close>.\<close>

definition slice0 :: "bytes \<Rightarrow> int \<Rightarrow> bytes" where
  "slice0 buf e = take (nat e) buf"

definition PDP_parse :: "bytes \<Rightarrow> error + part_payload" where
  "PDP_parse arrayBuffer =
     bindE (PDP_parseHeader arrayBuffer 0) (\<lambda>(hdr, off).
       let partSize = part_size hdr;
           trimmedBuffer = slice0 arrayBuffer (4 + partSize)
       in bindE (PDP_subBlocks_loop trimmedBuffer off []) (\<lambda>subs.
            Inr \<lparr>header = hdr, sub_blocks = subs\<rparr>))"


subsection \<open>src/unnamed/part\_001\<close>

text \<open>\<open>parseHeader\<close>: the four bytes at 0x10 are read as the rotation.\<close>

definition P001_parseHeader :: "bytes \<Rightarrow> int \<Rightarrow> error + (part_header \<times> int)" where
  "P001_parseHeader buf off =
     bindE (getUint32 buf off) (\<lambda>partSize.
     bindE (getUint32 buf (off + 8)) (\<lambda>partX.
     bindE (getUint32 buf (off + 12)) (\<lambda>partY.
     bindE (getUint32 buf (off + 16)) (\<lambda>rotation.
     bindE (getUint8 buf (off + 20)) (\<lambda>vis.
     bindE (getUint32 buf (off + 22)) (\<lambda>nameSize.
     bindE (readName buf (off + 26) nameSize) (\<lambda>(name, off').
       Inr (\<lparr>part_size = partSize, part_x = partX, part_y = partY,
             part_rotation = Some rotation, visibility = vis,
             part_group_name_size = nameSize, part_group_name = name\<rparr>,
            off'))))))))"

text \<open>
  \<open>cur_block_size\<close> holds the second argument of \<open>parse\<close>, which is \<open>undefined\<close>
  (\<open>None\<close>) when the caller passes one argument.  \<open>n <= undefined\<close> compares with NaN
  and is false.
\<close>

definition js_le :: "int \<Rightarrow> int option \<Rightarrow> bool" where
  "js_le a b = (case b of None \<Rightarrow> False | Some c \<Rightarrow> a \<le> c)"

text \<open>The body of the pin loop: one pin record, then 13 bytes of padding.\<close>

definition P001_parsePin :: "bytes \<Rightarrow> int \<Rightarrow> error + (pin \<times> int)" where
  "P001_parsePin buf off =
     bindE (getUint32 buf off) (\<lambda>un1.
     bindE (getUint32 buf (off + 4)) (\<lambda>x.
     bindE (getUint32 buf (off + 8)) (\<lambda>y.
     bindE (getUint32 buf (off + 12)) (\<lambda>un2.
     bindE (getUint32 buf (off + 16)) (\<lambda>pinRotation.
     bindE (getUint32 buf (off + 20)) (\<lambda>pinNameSize.
     bindE (readName buf (off + 24) pinNameSize) (\<lambda>(pinName, off1).
     bindE (getUint32 buf off1) (\<lambda>width.
     bindE (getUint32 buf (off1 + 4)) (\<lambda>height.
     bindE (getUint8 buf (off1 + 8)) (\<lambda>shape.
     bindE (getUint32 buf (off1 + 9 + 23)) (\<lambda>netIndex.
       Inr (\<lparr>pin_un1 = un1, pin_x = x, pin_y = y, pin_un2 = un2,
             pin_rotation = pinRotation, pin_name_size = pinNameSize, pin_name = pinName,
             pin_height = height, pin_width = width, pin_shape = shape,
             pin_netIndex = netIndex\<rparr>,
            off1 + 9 + 23 + 4 + 13))))))))))))"

lemma P001_parsePin_advances: "P001_parsePin buf off = Inr (p, off') \<Longrightarrow> off + 73 \<le> off'"
  by (auto simp: P001_parsePin_def bindE_Inr_iff dest!: readName_advances)

text \<open>The loop \<open>while (this.offset + blockSize <= this.cur_block_size)\<close>.\<close>

function P001_pins_loop ::
  "bytes \<Rightarrow> int option \<Rightarrow> int \<Rightarrow> int \<Rightarrow> pin list \<Rightarrow> error + (pin list \<times> int)" where
  "P001_pins_loop buf cur_block_size blockSize off pins =
     (if js_le (off + blockSize) cur_block_size
      then (case P001_parsePin buf off of
              Inl e \<Rightarrow> Inl e
            | Inr (p, off') \<Rightarrow> P001_pins_loop buf cur_block_size blockSize off' (pins @ [p]))
      else Inr (pins, off))"
  by pat_completeness auto
termination
  by (relation "measure (\<lambda>(buf, cur, blockSize, off, pins).
        case cur of None \<Rightarrow> 0 | Some c \<Rightarrow> nat (c + 1 - (off + blockSize)))")
     (auto simp: js_le_def split: option.splits dest!: P001_parsePin_advances)

declare P001_pins_loop.simps [simp del]

definition P001_parseSubType09 ::
  "bytes \<Rightarrow> int option \<Rightarrow> int \<Rightarrow> error + (sub_block \<times> int)" where
  "P001_parseSubType09 buf cur_block_size off =
     bindE (getUint32 buf off) (\<lambda>blockSize.
     bindE (P001_pins_loop buf cur_block_size blockSize (off + 4) []) (\<lambda>(pins, off').
       Inr (sub_type_09 blockSize pins, off')))"

definition P001_parseSubBlock ::
  "bytes \<Rightarrow> int option \<Rightarrow> int \<Rightarrow> error + (sub_block option \<times> int)" where
  "P001_parseSubBlock buf cur_block_size off =
     (if off \<ge> int (length buf) then Inr (None, off)
      else bindE (getUint8 buf off) (\<lambda>subTypeIdentifier.
        if subTypeIdentifier = 0x01
          then bindE (parseSubType01 buf (off + 1)) (\<lambda>(b, off'). Inr (Some b, off'))
        else if subTypeIdentifier = 0x05
          then bindE (parseSubType05 buf (off + 1)) (\<lambda>(b, off'). Inr (Some b, off'))
        else if subTypeIdentifier = 0x06
          then bindE (parseSubType06 buf (off + 1)) (\<lambda>(b, off'). Inr (Some b, off'))
        else if subTypeIdentifier = 0x09
          then bindE (P001_parseSubType09 buf cur_block_size (off + 1))
                 (\<lambda>(b, off'). Inr (Some b, off'))
        else Inr (None, off + 1)))"

lemma P001_pins_loop_advances:
  "P001_pins_loop buf cur blockSize off pins = Inr (r, off') \<Longrightarrow> off \<le> off'"
proof (induction buf cur blockSize off pins rule: P001_pins_loop.induct)
  case (1 buf cur blockSize off pins)
  note unfold = P001_pins_loop.simps [of buf cur blockSize off pins]
  show ?case
  proof (cases "js_le (off + blockSize) cur")
    case False
    with "1.prems" show ?thesis by (simp add: unfold)
  next
    case True
    show ?thesis
    proof (cases "P001_parsePin buf off")
      case (Inl e)
      with True "1.prems" show ?thesis by (simp add: unfold)
    next
      case (Inr res)
      obtain p o1 where res: "res = (p, o1)" by (cases res)
      with Inr have step: "P001_parsePin buf off = Inr (p, o1)" by simp
      from True step "1.prems"
      have "P001_pins_loop buf cur blockSize o1 (pins @ [p]) = Inr (r, off')"
        by (simp add: unfold)
      with "1.IH" [OF True step refl] have "o1 \<le> off'" by simp
      with P001_parsePin_advances [OF step] show ?thesis by simp
    qed
  qed
qed

lemma P001_parseSubType09_advances:
  "P001_parseSubType09 buf cur off = Inr (sb, off') \<Longrightarrow> off + 4 \<le> off'"
  by (auto simp: P001_parseSubType09_def bindE_Inr_iff dest!: P001_pins_loop_advances)

lemma P001_parseSubBlock_advances:
  "P001_parseSubBlock buf cur off = Inr (Some sb, off') \<Longrightarrow> off + 5 \<le> off'"
  by (auto simp: P001_parseSubBlock_def bindE_Inr_iff split: if_splits
      dest!: parseSubType01_advances parseSubType05_advances parseSubType06_advances
        P001_parseSubType09_advances)

text \<open>
  The loop \<open>while (this.offset + this.pin_block_size < this.dataView.byteLength)\<close> of
  \<open>parse\<close>.  Nothing assigns \<open>pin_block_size\<close> after \<open>init\<close> has set it to 0.
\<close>

function P001_subBlocks_loop ::
  "bytes \<Rightarrow> int option \<Rightarrow> int \<Rightarrow> int \<Rightarrow> sub_block list \<Rightarrow> error + sub_block list" where
  "P001_subBlocks_loop buf cur_block_size pin_block_size off subs =
     (if off + pin_block_size < int (length buf)
      then (case P001_parseSubBlock buf cur_block_size off of
              Inl e \<Rightarrow> Inl e
            | Inr (None, off') \<Rightarrow> Inr subs
            | Inr (Some subBlock, off') \<Rightarrow>
                P001_subBlocks_loop buf cur_block_size pin_block_size off' (subs @ [subBlock]))
      else Inr subs)"
  by pat_completeness auto
termination
  by (relation "measure (\<lambda>(buf, cur, pbs, off, subs). nat (int (length buf) - (off + pbs)))")
     (auto dest!: P001_parseSubBlock_advances)

declare P001_subBlocks_loop.simps [simp del]

definition P001_parse :: "bytes \<Rightarrow> int option \<Rightarrow> error + part_payload" where
  "P001_parse arrayBuffer t07blockSize =
     bindE (P001_parseHeader arrayBuffer 0) (\<lambda>(hdr, off).
       let partSize = part_size hdr;
           trimmedBuffer = slice0 arrayBuffer (4 + partSize)
       in bindE (P001_subBlocks_loop trimmedBuffer t07blockSize 0 off []) (\<lambda>subs.
            Inr \<lparr>header = hdr, sub_blocks = subs\<rparr>))"


section \<open>raw\_parser.js (src/unnamed/part\_000): the top-level blocks\<close>

record arc =
  arc_layer :: int
  arc_x1 :: int
  arc_y1 :: int
  arc_r :: int
  arc_angle_start :: int
  arc_angle_end :: int
  arc_scale :: int
  arc_unknown_arc :: int

record via =
  via_x :: int
  via_y :: int
  via_outer_radius :: int
  via_inner_radius :: int
  via_layer_a_index :: int
  via_layer_b_index :: int
  via_net_index :: int
  via_text :: utf8_text

record segment =
  seg_layer :: int
  seg_x1 :: int
  seg_y1 :: int
  seg_x2 :: int
  seg_y2 :: int
  seg_scale :: int
  seg_trace_net_index :: int

record text_block =
  text_unknown_1 :: int
  text_pos_x :: int
  text_pos_y :: int
  text_size :: int
  text_divider :: int
  text_empty :: int
  text_one :: int
  text_length :: int
  text_text :: utf8_text

text \<open>\<open>parsed_data\<close> is \<open>null\<close> (\<open>None\<close>) unless the payload parser returned.\<close>

record data_block =
  block_size :: int
  encrypted_data :: bytes
  decrypted_data :: bytes
  parsed_data :: "part_payload option"

text \<open>
  A block is a single-key object \<open>{ARC: ...}\<close>, \<open>{VIA: ...}\<close>, ..., or the empty
  object \<open>{}\<close> that \<open>parseType03\<close> and \<open>parseType09\<close> return.
\<close>

datatype block =
    ARC arc
  | VIA via
  | SEGMENT segment
  | TEXT text_block
  | DATA data_block
  | EmptyObject

definition readString :: "bytes \<Rightarrow> int \<Rightarrow> int \<Rightarrow> error + (utf8_text \<times> int)" where
  "readString buf off n = bindE (decode_view buf off n) (\<lambda>s. Inr (s, off + n))"

definition parseType01 :: "bytes \<Rightarrow> int \<Rightarrow> error + (block \<times> int)" where
  "parseType01 buf off =
     bindE (getUint32 buf off) (\<lambda>blockSize.
     bindE (getUint32 buf (off + 4)) (\<lambda>layer.
     bindE (getUint32 buf (off + 8)) (\<lambda>x1.
     bindE (getUint32 buf (off + 12)) (\<lambda>y1.
     bindE (getInt32 buf (off + 16)) (\<lambda>r.
     bindE (getInt32 buf (off + 20)) (\<lambda>angleStart.
     bindE (getInt32 buf (off + 24)) (\<lambda>angleEnd.
     bindE (getInt32 buf (off + 28)) (\<lambda>scale.
     bindE (getInt32 buf (off + 32)) (\<lambda>unknownArc.
       Inr (ARC \<lparr>arc_layer = layer, arc_x1 = x1, arc_y1 = y1, arc_r = r,
                 arc_angle_start = angleStart, arc_angle_end = angleEnd,
                 arc_scale = scale, arc_unknown_arc = unknownArc\<rparr>,
            off + 36))))))))))"

definition parseType02 :: "bytes \<Rightarrow> int \<Rightarrow> error + (block \<times> int)" where
  "parseType02 buf off =
     bindE (getUint32 buf off) (\<lambda>blockSize.
     bindE (getInt32 buf (off + 4)) (\<lambda>x.
     bindE (getInt32 buf (off + 8)) (\<lambda>y.
     bindE (getInt32 buf (off + 12)) (\<lambda>outerRadius.
     bindE (getInt32 buf (off + 16)) (\<lambda>innerRadius.
     bindE (getUint32 buf (off + 20)) (\<lambda>layerAIndex.
     bindE (getUint32 buf (off + 24)) (\<lambda>layerBIndex.
     bindE (getUint32 buf (off + 28)) (\<lambda>netIndex.
     bindE (getUint32 buf (off + 32)) (\<lambda>viaTextLength.
     bindE (readString buf (off + 36) viaTextLength) (\<lambda>(viaText, off').
       Inr (VIA \<lparr>via_x = x, via_y = y, via_outer_radius = outerRadius,
                 via_inner_radius = innerRadius, via_layer_a_index = layerAIndex,
                 via_layer_b_index = layerBIndex, via_net_index = netIndex,
                 via_text = viaText\<rparr>,
            off')))))))))))"

definition parseType03 :: "bytes \<Rightarrow> int \<Rightarrow> error + (block \<times> int)" where
  "parseType03 buf off =
     bindE (getUint32 buf off) (\<lambda>blockSize. Inr (EmptyObject, off + 4 + blockSize))"

definition parseType05 :: "bytes \<Rightarrow> int \<Rightarrow> error + (block \<times> int)" where
  "parseType05 buf off =
     bindE (getUint32 buf off) (\<lambda>blockSize.
     bindE (getUint32 buf (off + 4)) (\<lambda>layer.
     bindE (getInt32 buf (off + 8)) (\<lambda>x1.
     bindE (getInt32 buf (off + 12)) (\<lambda>y1.
     bindE (getInt32 buf (off + 16)) (\<lambda>x2.
     bindE (getInt32 buf (off + 20)) (\<lambda>y2.
     bindE (getInt32 buf (off + 24)) (\<lambda>scale.
     bindE (getUint32 buf (off + 28)) (\<lambda>traceNetIndex.
       Inr (SEGMENT \<lparr>seg_layer = layer, seg_x1 = x1, seg_y1 = y1, seg_x2 = x2,
                     seg_y2 = y2, seg_scale = scale,
                     seg_trace_net_index = traceNetIndex\<rparr>,
            off + 32)))))))))"

definition parseType06 :: "bytes \<Rightarrow> int \<Rightarrow> error + (block \<times> int)" where
  "parseType06 buf off =
     bindE (getUint32 buf off) (\<lambda>blockSize.
     bindE (getUint32 buf (off + 4)) (\<lambda>unknown1.
     bindE (getUint32 buf (off + 8)) (\<lambda>posX.
     bindE (getUint32 buf (off + 12)) (\<lambda>posY.
     bindE (getUint32 buf (off + 16)) (\<lambda>textSize.
     bindE (getUint32 buf (off + 20)) (\<lambda>divider.
     bindE (getUint32 buf (off + 24)) (\<lambda>empty.
     bindE (getUint16 buf (off + 28)) (\<lambda>one.
     bindE (getUint32 buf (off + 30)) (\<lambda>textLength.
     bindE (readString buf (off + 34) textLength) (\<lambda>(txt, off').
       Inr (TEXT \<lparr>text_unknown_1 = unknown1, text_pos_x = posX, text_pos_y = posY,
                  text_size = textSize, text_divider = divider, text_empty = empty,
                  text_one = one, text_length = textLength, text_text = txt\<rparr>,
            off')))))))))))"

text \<open>
  \<open>parseType07\<close>.  Two things it uses are not code of this file and are parameters:
  \<^item> \<open>des\<close> is \<open>decryptWithDES\<close> as a function of the ciphertext bytes, \<open>None\<close> when it
    throws (CryptoJS missing, or the cipher rejecting its input);
  \<^item> \<open>pdp\<close> is the global \<open>PartDataParser\<close>: \<open>None\<close> when it is not defined, otherwise
    what \<open>new PartDataParser().parse(buf)\<close> does when called with the one argument
    \<open>buf\<close>.
  On success \<open>decryptedData\<close> is a fresh array; in the fallback it is the view
  \<open>encryptedData\<close> itself, whose \<open>.buffer\<close> is the buffer of the whole file.  Both
  \<open>try\<close> blocks catch every exception.
\<close>

type_synonym des_fun = "bytes \<Rightarrow> bytes option"
type_synonym pdp_fun = "(bytes \<Rightarrow> error + part_payload) option"

definition parseType07 :: "des_fun \<Rightarrow> pdp_fun \<Rightarrow> bytes \<Rightarrow> int \<Rightarrow> error + (block \<times> int)" where
  "parseType07 des pdp buf off =
     bindE (getUint32 buf off) (\<lambda>blockSize.
     bindE (newUint8Array buf (off + 4) blockSize) (\<lambda>encryptedData.
       let decryptedData =
             (case des (Array_from encryptedData) of
                Some plain \<Rightarrow> fresh_u8 plain
              | None \<Rightarrow> encryptedData);
           parsedData =
             (case pdp of
                Some partDataParser_parse \<Rightarrow>
                  (case partDataParser_parse (buffer decryptedData) of
                     Inr result \<Rightarrow> Some result
                   | Inl e \<Rightarrow> None)
              | None \<Rightarrow> None)
       in Inr (DATA \<lparr>block_size = blockSize,
                     encrypted_data = Array_from encryptedData,
                     decrypted_data = Array_from decryptedData,
                     parsed_data = parsedData\<rparr>,
               off + 4 + blockSize)))"

definition parseType09 :: "bytes \<Rightarrow> int \<Rightarrow> error + (block \<times> int)" where
  "parseType09 buf off =
     bindE (getUint32 buf off) (\<lambda>blockSize. Inr (EmptyObject, off + 4 + blockSize))"

text \<open>
  One iteration of the \<open>while\<close> loop of \<open>parseMainDataBlocks\<close>, from the padding check on:
  the value of \<open>block\<close> after the \<open>switch\<close> (\<open>None\<close> when it is still \<open>undefined\<close>) and
  the new cursor.
\<close>

definition scanBlock :: "des_fun \<Rightarrow> pdp_fun \<Rightarrow> bytes \<Rightarrow> int \<Rightarrow> error + (block option \<times> int)" where
  "scanBlock des pdp buf off =
     bindE (getUint32 buf off) (\<lambda>paddingCheck.
       if paddingCheck = 0 then Inr (None, off + 4)
       else bindE (getUint8 buf off) (\<lambda>blockType.
         if blockType = 0x01
           then bindE (parseType01 buf (off + 1)) (\<lambda>(b, off'). Inr (Some b, off'))
         else if blockType = 0x02
           then bindE (parseType02 buf (off + 1)) (\<lambda>(b, off'). Inr (Some b, off'))
         else if blockType = 0x03
           then bindE (parseType03 buf (off + 1)) (\<lambda>(b, off'). Inr (Some b, off'))
         else if blockType = 0x04
           then Inr (None, off + 1 + 1)
         else if blockType = 0x05
           then bindE (parseType05 buf (off + 1)) (\<lambda>(b, off'). Inr (Some b, off'))
         else if blockType = 0x06
           then bindE (parseType06 buf (off + 1)) (\<lambda>(b, off'). Inr (Some b, off'))
         else if blockType = 0x07
           then bindE (parseType07 des pdp buf (off + 1)) (\<lambda>(b, off'). Inr (Some b, off'))
         else if blockType = 0x08
           then Inr (None, off + 1 + 1)
         else if blockType = 0x09
           then bindE (parseType09 buf (off + 1)) (\<lambda>(b, off'). Inr (Some b, off'))
         else Inr (None, off + 1)))"

text \<open>\<open>if (block) blocks.push(block)\<close>: every object is truthy, \<open>undefined\<close> is not.\<close>

definition push_if_truthy :: "block list \<Rightarrow> block option \<Rightarrow> block list" where
  "push_if_truthy blocks block = (case block of None \<Rightarrow> blocks | Some b \<Rightarrow> blocks @ [b])"

lemma getInt32_Inr: "getInt32 buf off = Inr v \<Longrightarrow> in_range buf off 4"
  by (auto simp: getInt32_def bindE_Inr_iff dest: getUint32_Inr)

lemma newUint8Array_Inr:
  "newUint8Array buf off n = Inr v \<Longrightarrow>
     in_range buf off n \<and> v = \<lparr>buffer = buf, byteOffset = off, view_length = n\<rparr>"
  by (auto simp: newUint8Array_def split: if_splits)

lemma scanBlock_advances: "scanBlock des pdp buf off = Inr (b, off') \<Longrightarrow> off < off'"
  by (auto simp: scanBlock_def parseType01_def parseType02_def parseType03_def
        parseType05_def parseType06_def parseType07_def parseType09_def readString_def
        bindE_Inr_iff Let_def
      split: if_splits dest!: getUint32_Inr)

function parseMainDataBlocks_loop ::
  "des_fun \<Rightarrow> pdp_fun \<Rightarrow> bytes \<Rightarrow> int \<Rightarrow> int \<Rightarrow> block list \<Rightarrow> error + block list" where
  "parseMainDataBlocks_loop des pdp buf endOffset off blocks =
     (if off < endOffset \<and> off < int (length buf)
      then (if off \<ge> endOffset then Inr blocks
            else (case scanBlock des pdp buf off of
                    Inl e \<Rightarrow> Inl e
                  | Inr (block, off') \<Rightarrow>
                      parseMainDataBlocks_loop des pdp buf endOffset off'
                        (push_if_truthy blocks block)))
      else Inr blocks)"
  by pat_completeness auto
termination
  by (relation "measure (\<lambda>(des, pdp, buf, endOffset, off, blocks). nat (int (length buf) - off))")
     (auto dest!: scanBlock_advances)

declare parseMainDataBlocks_loop.simps [simp del]

definition parseMainDataBlocks ::
  "des_fun \<Rightarrow> pdp_fun \<Rightarrow> bytes \<Rightarrow> int \<Rightarrow> int \<Rightarrow> error + block list" where
  "parseMainDataBlocks des pdp buf mainDataBlocksSize startOffset =
     (let endOffset = startOffset + mainDataBlocksSize
      in parseMainDataBlocks_loop des pdp buf endOffset startOffset [])"

text \<open>
  \<open>parseFileHeader\<close>: the logging loop reads only bytes below \<open>byteLength\<close>; then the four
  header fields are read, and the result is \<open>mainDataBlocksSize\<close> and the cursor 0x44.
\<close>

definition parseFileHeader :: "bytes \<Rightarrow> error + (int \<times> int)" where
  "parseFileHeader buf =
     bindE (getUint32 buf 0x20) (\<lambda>headerAddressesSize.
     bindE (getUint32 buf 0x24) (\<lambda>imageBlockStart.
     bindE (getUint32 buf 0x28) (\<lambda>netBlockStart.
     bindE (getUint32 buf 0x40) (\<lambda>mainDataBlocksSize.
       Inr (mainDataBlocksSize, 0x44)))))"

record parse_result =
  main_data_block :: "block list"

definition parse :: "des_fun \<Rightarrow> pdp_fun \<Rightarrow> bytes \<Rightarrow> error + parse_result" where
  "parse des pdp arrayBuffer =
     bindE (xorStep arrayBuffer) (\<lambda>buf.
     bindE (parseFileHeader buf) (\<lambda>(mainDataBlocksSize, off).
     bindE (parseMainDataBlocks des pdp buf mainDataBlocksSize off) (\<lambda>blocks.
       Inr \<lparr>main_data_block = blocks\<rparr>)))"


text \<open>
  The cursors and block lists the scan loop passes through: from \<open>(off, blocks)\<close> one
  successful iteration leads to the cursor it returns and the list after the push.
\<close>

inductive scan_reaches ::
  "des_fun \<Rightarrow> pdp_fun \<Rightarrow> bytes \<Rightarrow> int \<Rightarrow> int \<times> block list \<Rightarrow> int \<times> block list \<Rightarrow> bool"
  for des pdp buf endOffset where
  scan_here: "scan_reaches des pdp buf endOffset s s"
| scan_step:
    "off < endOffset \<Longrightarrow> off < int (length buf) \<Longrightarrow>
     scanBlock des pdp buf off = Inr (block, off') \<Longrightarrow>
     scan_reaches des pdp buf endOffset (off', push_if_truthy blocks block) s \<Longrightarrow>
     scan_reaches des pdp buf endOffset (off, blocks) s"

text \<open>
  The iterations of the scan loop, in order: for each one the cursor it started at and
  the value of \<open>block\<close> after the \<open>switch\<close>.  The list ends where the loop ends, by its
  condition or by a throw.
\<close>

function scan_trace ::
  "des_fun \<Rightarrow> pdp_fun \<Rightarrow> bytes \<Rightarrow> int \<Rightarrow> int \<Rightarrow> (int \<times> block option) list" where
  "scan_trace des pdp buf endOffset off =
     (if off < endOffset \<and> off < int (length buf)
      then (case scanBlock des pdp buf off of
              Inl e \<Rightarrow> []
            | Inr (block, off') \<Rightarrow> (off, block) # scan_trace des pdp buf endOffset off')
      else [])"
  by pat_completeness auto
termination
  by (relation "measure (\<lambda>(des, pdp, buf, endOffset, off). nat (int (length buf) - off))")
     (auto dest!: scanBlock_advances)

declare scan_trace.simps [simp del]

text \<open>What \<open>if (block) blocks.push(block)\<close> appends in one iteration.\<close>

definition pushed :: "int \<times> block option \<Rightarrow> block list" where
  "pushed it = (case snd it of None \<Rightarrow> [] | Some b \<Rightarrow> [b])"

section \<open>Concrete inputs\<close>

text \<open>A VIA block: tag 2, blockSize 21, then the fields and an empty text.\<close>

definition via_bytes :: bytes where
  "via_bytes =
     [2, 21, 0, 0, 0, 100, 0, 0, 0, 200, 0, 0, 0, 50, 0, 0, 0, 20, 0, 0, 0,
      1, 0, 0, 0, 3, 0, 0, 0, 7, 0, 0, 0, 0, 0, 0, 0]"

definition via_block :: block where
  "via_block = VIA \<lparr>via_x = 100, via_y = 200, via_outer_radius = 50, via_inner_radius = 20,
                    via_layer_a_index = 1, via_layer_b_index = 3, via_net_index = 7,
                    via_text = []\<rparr>"

text \<open>A zero-filled header of 0x44 bytes with \<open>mainDataBlocksSize = n\<close> (for \<open>n < 256\<close>).\<close>

definition zero_header :: "byte \<Rightarrow> bytes" where
  "zero_header n = replicate 0x40 0 @ [n, 0, 0, 0]"

text \<open>The VIA block followed by one stray byte, with a budget that reaches past it.\<close>

definition truncated_file :: bytes where
  "truncated_file = zero_header 100 @ via_bytes @ [1]"

text \<open>
  A file whose byte 0x10 is 1 and that holds the marker at offset 0x44, followed by two
  more bytes.
\<close>

definition marker_bytes :: bytes where
  "marker_bytes = [0x76, 0x36, 0x76, 0x36, 0x35, 0x35, 0x35, 0x76, 0x36, 0x76, 0x36]"

definition marker_file :: bytes where
  "marker_file = replicate 16 0 @ [1] @ replicate 51 0 @ marker_bytes @ [0xAA, 0xBB]"

text \<open>The tag-3 block with \<open>blockSize = 0\<close>, alone in the main data.\<close>

definition placeholder_file :: bytes where
  "placeholder_file = zero_header 5 @ [3, 0, 0, 0, 0]"

text \<open>A DATA block whose three bytes of ciphertext are not a multiple of the DES block.\<close>

definition fallback_file :: bytes where
  "fallback_file = zero_header 8 @ [7, 3, 0, 0, 0, 0xDE, 0xAD, 0xBF]"

definition zero_part_header :: part_header where
  "zero_part_header = \<lparr>part_size = 0, part_x = 0, part_y = 0, part_rotation = None,
      visibility = 0, part_group_name_size = 0, part_group_name = []\<rparr>"

text \<open>
  A decrypted payload of 91 bytes: the part header (\<open>part_size = 87\<close>), the pin-array
  tag 9 with \<open>blockSize = 60\<close>, and one pin record of 60 bytes.
\<close>

definition pin_payload :: bytes where
  "pin_payload =
     [87, 0, 0, 0,  0, 0, 0, 0,  10, 0, 0, 0,  20, 0, 0, 0,  90, 0, 0, 0,  1, 0,  0, 0, 0, 0]
     @ [9, 60, 0, 0, 0]
     @ [0, 0, 0, 0,  11, 0, 0, 0,  22, 0, 0, 0,  0, 0, 0, 0,  0, 0, 0, 0,  0, 0, 0, 0,
        5, 0, 0, 0,  6, 0, 0, 0,  2]
     @ replicate 23 0 @ [7, 0, 0, 0]"

definition pin_payload_header :: part_header where
  "pin_payload_header = \<lparr>part_size = 87, part_x = 10, part_y = 20, part_rotation = Some 90,
      visibility = 1, part_group_name_size = 0, part_group_name = []\<rparr>"

definition pin_payload_pin :: pin where
  "pin_payload_pin = \<lparr>pin_un1 = 0, pin_x = 11, pin_y = 22, pin_un2 = 0, pin_rotation = 0,
      pin_name_size = 0, pin_name = [], pin_height = 6, pin_width = 5, pin_shape = 2,
      pin_netIndex = 7\<rparr>"

text \<open>
  A file with one DATA block of 96 bytes of ciphertext, and the decryption that maps the
  ciphertext to \<open>pin_payload\<close> (91 bytes and 5 bytes of PKCS\#7 padding).
\<close>

definition data_file :: bytes where
  "data_file = zero_header 101 @ [7, 96, 0, 0, 0] @ replicate 96 0xEE"

definition des_to_pin_payload :: des_fun where
  "des_to_pin_payload = (\<lambda>cipher. Some pin_payload)"

text \<open>
  A payload of 43 bytes whose only sub-block has tag 1 and \<open>block_size = 0\<close>, so that
  the padding size is \<open>-12\<close>.
\<close>

definition neg_padding_payload :: bytes where
  "neg_padding_payload =
     [39, 0, 0, 0,  0, 0, 0, 0,  10, 0, 0, 0,  20, 0, 0, 0,  90, 0, 0, 0,  1, 0,  0, 0, 0, 0]
     @ [1,  0, 0, 0, 0,  0, 0, 0, 0,  7, 0, 0, 0,  8, 0, 0, 0]"

definition neg_padding_header :: part_header where
  "neg_padding_header = \<lparr>part_size = 39, part_x = 10, part_y = 20, part_rotation = Some 90,
      visibility = 1, part_group_name_size = 0, part_group_name = []\<rparr>"

text \<open>
  A payload of 67 bytes with one pin block laid out as src/part\_data\_parser.js reads
  it: \<open>blockSize = 36\<close>, no name and no sub-parts.
\<close>

definition single_pin_payload :: bytes where
  "single_pin_payload =
     [63, 0, 0, 0,  0, 0, 0, 0,  10, 0, 0, 0,  20, 0, 0, 0,  90, 0, 0, 0,  1, 0,  0, 0, 0, 0]
     @ [9,  36, 0, 0, 0]
     @ [0, 0, 0, 0,  11, 0, 0, 0,  22, 0, 0, 0,  0, 0, 0, 0,  0, 0, 0, 0,  0, 0, 0, 0,
        6, 0, 0, 0,  5, 0, 0, 0,  4, 0, 0, 0]"

definition single_pin_header :: part_header where
  "single_pin_header = \<lparr>part_size = 63, part_x = 10, part_y = 20, part_rotation = Some 90,
      visibility = 1, part_group_name_size = 0, part_group_name = []\<rparr>"

text \<open>The sub-blocks that come from tag 9, in either shape.\<close>

fun is_pin_block :: "sub_block \<Rightarrow> bool" where
  "is_pin_block (sub_type_09 blockSize pins) = True"
| "is_pin_block (sub_type_09_single blockSize un1 x y un2 un3 pinNameSize pinName height width
     subParts un4) = True"
| "is_pin_block sb = False"


text \<open>The two shapes apart.\<close>

fun is_pin_array :: "sub_block \<Rightarrow> bool" where
  "is_pin_array (sub_type_09 blockSize pins) = True"
| "is_pin_array sb = False"

fun is_single_pin :: "sub_block \<Rightarrow> bool" where
  "is_single_pin (sub_type_09_single blockSize un1 x y un2 un3 pinNameSize pinName height width
     subParts un4) = True"
| "is_single_pin sb = False"

text \<open>
  Four bytes of padding, a tag-3 block with \<open>blockSize = 0\<close>, a tag-4 block and the VIA
  block.
\<close>

definition mixed_file :: bytes where
  "mixed_file = zero_header 48 @ [0, 0, 0, 0] @ [3, 0, 0, 0, 0] @ [4, 0xFF] @ via_bytes"

section \<open>Helper lemmas\<close>

lemma word_xor_uint: "(word_of_int (uint (w::byte) XOR k) :: byte) = w XOR word_of_int k"
  by (simp add: of_int_xor_eq)

lemma xoredDataLength_whole: "xoredDataLength buf = int (length buf)"
  by (simp add: xoredDataLength_def findSequence_def)

text \<open>The XOR loop started at \<open>i\<close> changes exactly the bytes at \<open>i \<le> j < len\<close>.\<close>

lemma xorLoop_closed:
  "0 \<le> i \<Longrightarrow> len \<le> int (length buf) \<Longrightarrow>
   xorLoop k len i buf =
     Inr (map (\<lambda>j. if i \<le> int j \<and> int j < len then buf ! j XOR word_of_int k else buf ! j)
            [0..<length buf])"
proof (induction k len i buf rule: xorLoop.induct)
  case (1 k len i buf)
  note unfold = xorLoop.simps [of k len i buf]
  show ?case
  proof (cases "i < len")
    case False
    then have "xorLoop k len i buf = Inr buf" by (simp add: unfold)
    moreover from False have
      "map (\<lambda>j. if i \<le> int j \<and> int j < len then buf ! j XOR word_of_int k else buf ! j)
         [0..<length buf] = buf"
      by (auto intro!: nth_equalityI)
    ultimately show ?thesis by simp
  next
    case True
    with "1.prems" have rng: "in_range buf i 1" by (simp add: in_range_def)
    define buf' where "buf' = buf[nat i := buf ! nat i XOR word_of_int k]"
    have g: "getUint8 buf i = Inr (uint (buf ! nat i))"
      using rng by (simp add: getUint8_def byte_at_def)
    have s: "setUint8 buf i (uint (buf ! nat i) XOR k) = Inr buf'"
      using rng by (simp add: setUint8_def buf'_def word_xor_uint)
    have len': "len \<le> int (length buf')" using "1.prems" by (simp add: buf'_def)
    from "1.prems" have i1: "0 \<le> i + 1" by simp
    have "xorLoop k len i buf = xorLoop k len (i + 1) buf'"
      using True g s by (simp add: unfold)
    also have "\<dots> = Inr (map (\<lambda>j. if i + 1 \<le> int j \<and> int j < len
                                  then buf' ! j XOR word_of_int k else buf' ! j)
                            [0..<length buf'])"
      by (rule "1.IH" [OF True g s i1 len'])
    also have "map (\<lambda>j. if i + 1 \<le> int j \<and> int j < len
                          then buf' ! j XOR word_of_int k else buf' ! j) [0..<length buf']
             = map (\<lambda>j. if i \<le> int j \<and> int j < len
                          then buf ! j XOR word_of_int k else buf ! j) [0..<length buf]"
      using "1.prems" True
      by (auto intro!: nth_equalityI simp: buf'_def nth_list_update)
    finally show ?thesis .
  qed
qed

lemma loop_step:
  "off < endOffset \<Longrightarrow> off < int (length buf) \<Longrightarrow>
   scanBlock des pdp buf off = Inr (block, off') \<Longrightarrow>
   parseMainDataBlocks_loop des pdp buf endOffset off blocks =
   parseMainDataBlocks_loop des pdp buf endOffset off' (push_if_truthy blocks block)"
  by (simp add: parseMainDataBlocks_loop.simps [of des pdp buf endOffset off blocks])

lemma loop_fail:
  "off < endOffset \<Longrightarrow> off < int (length buf) \<Longrightarrow>
   scanBlock des pdp buf off = Inl err \<Longrightarrow>
   parseMainDataBlocks_loop des pdp buf endOffset off blocks = Inl err"
  by (simp add: parseMainDataBlocks_loop.simps [of des pdp buf endOffset off blocks])

lemma loop_exit:
  "\<not> (off < endOffset \<and> off < int (length buf)) \<Longrightarrow>
   parseMainDataBlocks_loop des pdp buf endOffset off blocks = Inr blocks"
  by (auto simp: parseMainDataBlocks_loop.simps [of des pdp buf endOffset off blocks])

lemma scan_reaches_loop:
  "scan_reaches des pdp buf endOffset s t \<Longrightarrow>
   parseMainDataBlocks_loop des pdp buf endOffset (fst s) (snd s) =
   parseMainDataBlocks_loop des pdp buf endOffset (fst t) (snd t)"
  by (induction rule: scan_reaches.induct) (simp_all add: loop_step)

text \<open>The sub-block loops only append to the list they are given.\<close>

lemma PDP_subBlocks_loop_prefix:
  "PDP_subBlocks_loop buf off subs = Inr r \<Longrightarrow> set subs \<subseteq> set r"
proof (induction buf off subs rule: PDP_subBlocks_loop.induct)
  case (1 buf off subs)
  note unfold = PDP_subBlocks_loop.simps [of buf off subs]
  show ?case
  proof (cases "off < int (length buf)")
    case False
    with "1.prems" show ?thesis by (simp add: unfold)
  next
    case True
    show ?thesis
    proof (cases "PDP_parseSubBlock buf off")
      case (Inl e)
      with True "1.prems" show ?thesis by (simp add: unfold)
    next
      case (Inr res)
      obtain x o1 where res: "res = (x, o1)" by (cases res)
      show ?thesis
      proof (cases x)
        case None
        with True Inr res "1.prems" show ?thesis by (simp add: unfold)
      next
        case (Some sb)
        with Inr res have step: "PDP_parseSubBlock buf off = Inr (Some sb, o1)" by simp
        from True step "1.prems" have "PDP_subBlocks_loop buf o1 (subs @ [sb]) = Inr r"
          by (simp add: unfold)
        from "1.IH" [OF True step refl refl this] show ?thesis by simp
      qed
    qed
  qed
qed

lemma P001_subBlocks_loop_prefix:
  "P001_subBlocks_loop buf cur pbs off subs = Inr r \<Longrightarrow> set subs \<subseteq> set r"
proof (induction buf cur pbs off subs rule: P001_subBlocks_loop.induct)
  case (1 buf cur pbs off subs)
  note unfold = P001_subBlocks_loop.simps [of buf cur pbs off subs]
  show ?case
  proof (cases "off + pbs < int (length buf)")
    case False
    with "1.prems" show ?thesis by (simp add: unfold)
  next
    case True
    show ?thesis
    proof (cases "P001_parseSubBlock buf cur off")
      case (Inl e)
      with True "1.prems" show ?thesis by (simp add: unfold)
    next
      case (Inr res)
      obtain x o1 where res: "res = (x, o1)" by (cases res)
      show ?thesis
      proof (cases x)
        case None
        with True Inr res "1.prems" show ?thesis by (simp add: unfold)
      next
        case (Some sb)
        with Inr res have step: "P001_parseSubBlock buf cur off = Inr (Some sb, o1)" by simp
        from True step "1.prems"
        have "P001_subBlocks_loop buf cur pbs o1 (subs @ [sb]) = Inr r"
          by (simp add: unfold)
        from "1.IH" [OF True step refl refl this] show ?thesis by simp
      qed
    qed
  qed
qed

lemma PDP_step_agrees:
  assumes "PDP_parseSubBlock buf off = Inr (x, off')"
    and "\<forall>sb. x = Some sb \<longrightarrow> \<not> is_pin_block sb"
  shows "P001_parseSubBlock buf t off = Inr (x, off')"
proof (cases "off \<ge> int (length buf)")
  case True
  with assms(1) show ?thesis by (simp add: PDP_parseSubBlock_def P001_parseSubBlock_def)
next
  case False
  with assms(1) obtain tag where tag: "getUint8 buf off = Inr tag"
    by (auto simp: PDP_parseSubBlock_def bindE_Inr_iff)
  have "tag \<noteq> 9"
  proof
    assume "tag = 9"
    with assms(1) False tag obtain sb where
      "PDP_parseSubType09 buf (off + 1) = Inr (sb, off')" "x = Some sb"
      by (auto simp: PDP_parseSubBlock_def bindE_Inr_iff)
    then have "x = Some sb" "is_pin_block sb"
      by (auto simp: PDP_parseSubType09_def bindE_Inr_iff Let_def)
    with assms(2) show False by blast
  qed
  with assms(1) False tag show ?thesis
    by (auto simp: PDP_parseSubBlock_def P001_parseSubBlock_def split: if_splits)
qed

lemma P001_step_agrees:
  assumes "P001_parseSubBlock buf t off = Inr (x, off')"
    and "\<forall>sb. x = Some sb \<longrightarrow> \<not> is_pin_block sb"
  shows "PDP_parseSubBlock buf off = Inr (x, off')"
proof (cases "off \<ge> int (length buf)")
  case True
  with assms(1) show ?thesis by (simp add: PDP_parseSubBlock_def P001_parseSubBlock_def)
next
  case False
  with assms(1) obtain tag where tag: "getUint8 buf off = Inr tag"
    by (auto simp: P001_parseSubBlock_def bindE_Inr_iff)
  have "tag \<noteq> 9"
  proof
    assume "tag = 9"
    with assms(1) False tag obtain sb where
      "P001_parseSubType09 buf t (off + 1) = Inr (sb, off')" "x = Some sb"
      by (auto simp: P001_parseSubBlock_def bindE_Inr_iff)
    then have "x = Some sb" "is_pin_block sb"
      by (auto simp: P001_parseSubType09_def bindE_Inr_iff)
    with assms(2) show False by blast
  qed
  with assms(1) False tag show ?thesis
    by (auto simp: PDP_parseSubBlock_def P001_parseSubBlock_def split: if_splits)
qed

lemma PDP_loop_agrees:
  "PDP_subBlocks_loop buf off subs = Inr r \<Longrightarrow> \<forall>sb\<in>set r. \<not> is_pin_block sb \<Longrightarrow>
   P001_subBlocks_loop buf t 0 off subs = Inr r"
proof (induction buf off subs rule: PDP_subBlocks_loop.induct)
  case (1 buf off subs)
  note unfold = PDP_subBlocks_loop.simps [of buf off subs]
  note unfold' = P001_subBlocks_loop.simps [of buf t 0 off subs]
  show ?case
  proof (cases "off < int (length buf)")
    case False
    then have "P001_subBlocks_loop buf t 0 off subs = Inr subs" by (simp add: unfold')
    moreover from False "1.prems"(1) have "r = subs" by (simp add: unfold)
    ultimately show ?thesis by simp
  next
    case True
    show ?thesis
    proof (cases "PDP_parseSubBlock buf off")
      case (Inl e)
      with True "1.prems"(1) show ?thesis by (simp add: unfold)
    next
      case (Inr res)
      obtain x o1 where res: "res = (x, o1)" by (cases res)
      show ?thesis
      proof (cases x)
        case None
        with Inr res have step: "PDP_parseSubBlock buf off = Inr (None, o1)" by simp
        then have "P001_parseSubBlock buf t off = Inr (None, o1)"
          by (rule PDP_step_agrees) simp
        with True have "P001_subBlocks_loop buf t 0 off subs = Inr subs"
          by (simp add: unfold')
        moreover from True step "1.prems"(1) have "r = subs" by (simp add: unfold)
        ultimately show ?thesis by simp
      next
        case (Some sb)
        with Inr res have step: "PDP_parseSubBlock buf off = Inr (Some sb, o1)" by simp
        from True step "1.prems"(1) have rest: "PDP_subBlocks_loop buf o1 (subs @ [sb]) = Inr r"
          by (simp add: unfold)
        from PDP_subBlocks_loop_prefix [OF rest] have "sb \<in> set r" by simp
        with "1.prems"(2) have "\<not> is_pin_block sb" by blast
        with step have "P001_parseSubBlock buf t off = Inr (Some sb, o1)"
          by (intro PDP_step_agrees) simp_all
        moreover have "P001_subBlocks_loop buf t 0 o1 (subs @ [sb]) = Inr r"
          by (rule "1.IH" [OF True step refl refl rest "1.prems"(2)])
        ultimately show ?thesis using True by (simp add: unfold')
      qed
    qed
  qed
qed

lemma P001_loop_agrees:
  "P001_subBlocks_loop buf t pbs off subs = Inr r \<Longrightarrow> pbs = 0 \<Longrightarrow>
   \<forall>sb\<in>set r. \<not> is_pin_block sb \<Longrightarrow> PDP_subBlocks_loop buf off subs = Inr r"
proof (induction buf t pbs off subs rule: P001_subBlocks_loop.induct)
  case (1 buf t pbs off subs)
  note unfold = P001_subBlocks_loop.simps [of buf t pbs off subs]
  note unfold' = PDP_subBlocks_loop.simps [of buf off subs]
  note pbs = "1.prems"(2)
  show ?case
  proof (cases "off + pbs < int (length buf)")
    case False
    then have "\<not> off < int (length buf)" using pbs by simp
    then have "PDP_subBlocks_loop buf off subs = Inr subs" by (simp add: unfold')
    moreover from False "1.prems"(1) have "r = subs" by (simp add: unfold)
    ultimately show ?thesis by simp
  next
    case True
    then have guard: "off < int (length buf)" using pbs by simp
    show ?thesis
    proof (cases "P001_parseSubBlock buf t off")
      case (Inl e)
      with True "1.prems"(1) show ?thesis by (simp add: unfold)
    next
      case (Inr res)
      obtain x o1 where res: "res = (x, o1)" by (cases res)
      show ?thesis
      proof (cases x)
        case None
        with Inr res have step: "P001_parseSubBlock buf t off = Inr (None, o1)" by simp
        then have "PDP_parseSubBlock buf off = Inr (None, o1)"
          by (rule P001_step_agrees) simp
        with guard have "PDP_subBlocks_loop buf off subs = Inr subs"
          by (simp add: unfold')
        moreover from True step "1.prems"(1) have "r = subs" by (simp add: unfold)
        ultimately show ?thesis by simp
      next
        case (Some sb)
        with Inr res have step: "P001_parseSubBlock buf t off = Inr (Some sb, o1)" by simp
        from True step "1.prems"(1)
        have rest: "P001_subBlocks_loop buf t pbs o1 (subs @ [sb]) = Inr r"
          by (simp add: unfold)
        from P001_subBlocks_loop_prefix [OF rest] have "sb \<in> set r" by simp
        with "1.prems"(3) have "\<not> is_pin_block sb" by blast
        with step have "PDP_parseSubBlock buf off = Inr (Some sb, o1)"
          by (intro P001_step_agrees) simp_all
        moreover have "PDP_subBlocks_loop buf o1 (subs @ [sb]) = Inr r"
          by (rule "1.IH" [OF True step refl refl rest pbs "1.prems"(3)])
        ultimately show ?thesis using guard by (simp add: unfold')
      qed
    qed
  qed
qed

lemma PDP_header_agrees:
  "PDP_parseHeader buf off = Inr (h, off') \<Longrightarrow>
   \<exists>rot. P001_parseHeader buf off = Inr (h\<lparr>part_rotation := Some rot\<rparr>, off')"
proof -
  assume a: "PDP_parseHeader buf off = Inr (h, off')"
  then obtain y v where y: "getUint32 buf (off + 12) = Inr y" and v: "getUint8 buf (off + 20) = Inr v"
    by (auto simp: PDP_parseHeader_def bindE_Inr_iff)
  from getUint32_Inr [OF y] getUint8_Inr [OF v] have "in_range buf (off + 16) 4"
    by (simp add: in_range_def)
  then obtain rot where rot: "getUint32 buf (off + 16) = Inr rot"
    by (simp add: getUint32_def)
  with a show ?thesis
    by (auto simp: PDP_parseHeader_def P001_parseHeader_def bindE_Inr_iff)
qed

lemma P001_header_agrees:
  "P001_parseHeader buf off = Inr (h, off') \<Longrightarrow>
   PDP_parseHeader buf off = Inr (h\<lparr>part_rotation := None\<rparr>, off')"
  by (auto simp: PDP_parseHeader_def P001_parseHeader_def bindE_Inr_iff)


text \<open>Without a block size, the pin loop of src/unnamed/part\_001 emits nothing.\<close>

lemma P001_no_pins_without_size:
  "P001_pins_loop buf None blockSize off pins = Inr (pins, off)"
  by (simp add: P001_pins_loop.simps [of buf None blockSize off pins] js_le_def)

text \<open>The scan loop returns the blocks of its iterations, in their order.\<close>

lemma trace_step:
  "off < endOffset \<Longrightarrow> off < int (length buf) \<Longrightarrow>
   scanBlock des pdp buf off = Inr (block, off') \<Longrightarrow>
   scan_trace des pdp buf endOffset off = (off, block) # scan_trace des pdp buf endOffset off'"
  by (simp add: scan_trace.simps [of des pdp buf endOffset off])

lemma trace_exit:
  "\<not> (off < endOffset \<and> off < int (length buf)) \<Longrightarrow>
   scan_trace des pdp buf endOffset off = []"
  by (auto simp: scan_trace.simps [of des pdp buf endOffset off])

lemma loop_is_trace:
  "parseMainDataBlocks_loop des pdp buf endOffset off blocks = Inr out \<Longrightarrow>
   out = blocks @ concat (map pushed (scan_trace des pdp buf endOffset off))"
proof (induction des pdp buf endOffset off blocks rule: parseMainDataBlocks_loop.induct)
  case (1 des pdp buf endOffset off blocks)
  show ?case
  proof (cases "off < endOffset \<and> off < int (length buf)")
    case False
    with "1.prems" show ?thesis by (simp add: loop_exit trace_exit)
  next
    case True
    then have g1: "off < endOffset" and g2: "off < int (length buf)" by simp_all
    show ?thesis
    proof (cases "scanBlock des pdp buf off")
      case (Inl e)
      with "1.prems" loop_fail [OF g1 g2 Inl] show ?thesis by simp
    next
      case (Inr res)
      obtain blk o1 where res: "res = (blk, o1)" by (cases res)
      with Inr have step: "scanBlock des pdp buf off = Inr (blk, o1)" by simp
      from "1.prems" loop_step [OF g1 g2 step]
      have rest: "parseMainDataBlocks_loop des pdp buf endOffset o1 (push_if_truthy blocks blk) = Inr out"
        by simp
      have ng: "\<not> endOffset \<le> off" using g1 by simp
      from "1.IH" [OF True ng step refl rest]
      have "out = push_if_truthy blocks blk @ concat (map pushed (scan_trace des pdp buf endOffset o1))" .
      moreover have "pushed (off, blk) = (case blk of None \<Rightarrow> [] | Some b \<Rightarrow> [b])"
        by (simp add: pushed_def)
      ultimately show ?thesis
        by (simp add: trace_step [OF g1 g2 step] push_if_truthy_def split: option.splits)
    qed
  qed
qed

lemma trace_member:
  "it \<in> set (scan_trace des pdp buf endOffset off) \<Longrightarrow>
   off \<le> fst it \<and> fst it < endOffset \<and> fst it < int (length buf) \<and>
   (\<exists>off'. scanBlock des pdp buf (fst it) = Inr (snd it, off'))"
proof (induction des pdp buf endOffset off rule: scan_trace.induct)
  case (1 des pdp buf endOffset off)
  show ?case
  proof (cases "off < endOffset \<and> off < int (length buf)")
    case False
    with "1.prems" show ?thesis by (simp add: trace_exit)
  next
    case True
    then have g1: "off < endOffset" and g2: "off < int (length buf)" by simp_all
    show ?thesis
    proof (cases "scanBlock des pdp buf off")
      case (Inl e)
      with "1.prems" True show ?thesis
        by (simp add: scan_trace.simps [of des pdp buf endOffset off])
    next
      case (Inr res)
      obtain blk o1 where res: "res = (blk, o1)" by (cases res)
      with Inr have step: "scanBlock des pdp buf off = Inr (blk, o1)" by simp
      from "1.prems" trace_step [OF g1 g2 step]
      have "it = (off, blk) \<or> it \<in> set (scan_trace des pdp buf endOffset o1)" by simp
      then show ?thesis
      proof
        assume "it = (off, blk)"
        with g1 g2 step show ?thesis by auto
      next
        assume "it \<in> set (scan_trace des pdp buf endOffset o1)"
        from "1.IH" [OF True step refl this] scanBlock_advances [OF step]
        show ?thesis by auto
      qed
    qed
  qed
qed

lemma trace_sorted:
  "sorted_wrt (<) (map fst (scan_trace des pdp buf endOffset off))"
proof (induction des pdp buf endOffset off rule: scan_trace.induct)
  case (1 des pdp buf endOffset off)
  show ?case
  proof (cases "off < endOffset \<and> off < int (length buf)")
    case False
    then show ?thesis by (simp add: trace_exit)
  next
    case True
    then have g1: "off < endOffset" and g2: "off < int (length buf)" by simp_all
    show ?thesis
    proof (cases "scanBlock des pdp buf off")
      case (Inl e)
      with True show ?thesis
        by (simp add: scan_trace.simps [of des pdp buf endOffset off])
    next
      case (Inr res)
      obtain blk o1 where res: "res = (blk, o1)" by (cases res)
      with Inr have step: "scanBlock des pdp buf off = Inr (blk, o1)" by simp
      have "\<forall>it\<in>set (scan_trace des pdp buf endOffset o1). off < fst it"
        using trace_member [of _ des pdp buf endOffset o1] scanBlock_advances [OF step]
        by fastforce
      with "1.IH" [OF True step refl] show ?thesis
        by (simp add: trace_step [OF g1 g2 step])
    qed
  qed
qed

lemma parseType01_kind: "parseType01 buf off = Inr (b, off') \<Longrightarrow> \<exists>a. b = ARC a"
  by (auto simp: parseType01_def bindE_Inr_iff)
lemma parseType02_kind: "parseType02 buf off = Inr (b, off') \<Longrightarrow> \<exists>a. b = VIA a"
  by (auto simp: parseType02_def bindE_Inr_iff)
lemma parseType05_kind: "parseType05 buf off = Inr (b, off') \<Longrightarrow> \<exists>a. b = SEGMENT a"
  by (auto simp: parseType05_def bindE_Inr_iff)
lemma parseType06_kind: "parseType06 buf off = Inr (b, off') \<Longrightarrow> \<exists>a. b = TEXT a"
  by (auto simp: parseType06_def bindE_Inr_iff)
lemma parseType07_kind: "parseType07 des pdp buf off = Inr (b, off') \<Longrightarrow> \<exists>a. b = DATA a"
  by (auto simp: parseType07_def bindE_Inr_iff Let_def)

lemma scanBlock_emits:
  assumes "scanBlock des pdp buf c = Inr (blk, off')"
  shows "(getUint32 buf c = Inr 0 \<longrightarrow> blk = None)
   \<and> (getUint32 buf c \<noteq> Inr 0 \<longrightarrow>
        (\<exists>t. getUint8 buf c = Inr t
          \<and> (t = 1 \<longrightarrow> (\<exists>a. parseType01 buf (c + 1) = Inr (ARC a, off') \<and> blk = Some (ARC a)))
          \<and> (t = 2 \<longrightarrow> (\<exists>v. parseType02 buf (c + 1) = Inr (VIA v, off') \<and> blk = Some (VIA v)))
          \<and> (t = 3 \<or> t = 9 \<longrightarrow> blk = Some EmptyObject)
          \<and> (t = 4 \<or> t = 8 \<longrightarrow> blk = None)
          \<and> (t = 5 \<longrightarrow> (\<exists>s. parseType05 buf (c + 1) = Inr (SEGMENT s, off') \<and> blk = Some (SEGMENT s)))
          \<and> (t = 6 \<longrightarrow> (\<exists>x. parseType06 buf (c + 1) = Inr (TEXT x, off') \<and> blk = Some (TEXT x)))
          \<and> (t = 7 \<longrightarrow> (\<exists>d. parseType07 des pdp buf (c + 1) = Inr (DATA d, off')
                              \<and> blk = Some (DATA d)))
          \<and> (t < 1 \<or> 9 < t \<longrightarrow> blk = None)))"
proof (intro conjI impI)
  assume "getUint32 buf c = Inr 0"
  with assms show "blk = None" by (simp add: scanBlock_def)
next
  assume nz: "getUint32 buf c \<noteq> Inr 0"
  with assms obtain w t where w: "getUint32 buf c = Inr w" "w \<noteq> 0"
    and t: "getUint8 buf c = Inr t"
    by (auto simp: scanBlock_def bindE_Inr_iff split: if_splits)
  have p1: "t = 1 \<longrightarrow> (\<exists>a. parseType01 buf (c + 1) = Inr (ARC a, off') \<and> blk = Some (ARC a))"
  proof
    assume "t = 1"
    with assms w t obtain b where b: "parseType01 buf (c + 1) = Inr (b, off')" "blk = Some b"
      by (auto simp: scanBlock_def bindE_Inr_iff)
    from parseType01_kind [OF b(1)] obtain a where "b = ARC a" ..
    with b show "\<exists>a. parseType01 buf (c + 1) = Inr (ARC a, off') \<and> blk = Some (ARC a)"
      by blast
  qed
  have p2: "t = 2 \<longrightarrow> (\<exists>v. parseType02 buf (c + 1) = Inr (VIA v, off') \<and> blk = Some (VIA v))"
  proof
    assume "t = 2"
    with assms w t obtain b where b: "parseType02 buf (c + 1) = Inr (b, off')" "blk = Some b"
      by (auto simp: scanBlock_def bindE_Inr_iff)
    from parseType02_kind [OF b(1)] obtain v where "b = VIA v" ..
    with b show "\<exists>v. parseType02 buf (c + 1) = Inr (VIA v, off') \<and> blk = Some (VIA v)"
      by blast
  qed
  have p3: "t = 3 \<or> t = 9 \<longrightarrow> blk = Some EmptyObject"
    using assms w t
    by (auto simp: scanBlock_def parseType03_def parseType09_def bindE_Inr_iff)
  have p4: "t = 4 \<or> t = 8 \<longrightarrow> blk = None"
    using assms w t by (auto simp: scanBlock_def)
  have p5: "t = 5 \<longrightarrow> (\<exists>s. parseType05 buf (c + 1) = Inr (SEGMENT s, off') \<and> blk = Some (SEGMENT s))"
  proof
    assume "t = 5"
    with assms w t obtain b where b: "parseType05 buf (c + 1) = Inr (b, off')" "blk = Some b"
      by (auto simp: scanBlock_def bindE_Inr_iff)
    from parseType05_kind [OF b(1)] obtain s where "b = SEGMENT s" ..
    with b show "\<exists>s. parseType05 buf (c + 1) = Inr (SEGMENT s, off') \<and> blk = Some (SEGMENT s)"
      by blast
  qed
  have p6: "t = 6 \<longrightarrow> (\<exists>x. parseType06 buf (c + 1) = Inr (TEXT x, off') \<and> blk = Some (TEXT x))"
  proof
    assume "t = 6"
    with assms w t obtain b where b: "parseType06 buf (c + 1) = Inr (b, off')" "blk = Some b"
      by (auto simp: scanBlock_def bindE_Inr_iff)
    from parseType06_kind [OF b(1)] obtain x where "b = TEXT x" ..
    with b show "\<exists>x. parseType06 buf (c + 1) = Inr (TEXT x, off') \<and> blk = Some (TEXT x)"
      by blast
  qed
  have p7: "t = 7 \<longrightarrow> (\<exists>d. parseType07 des pdp buf (c + 1) = Inr (DATA d, off') \<and> blk = Some (DATA d))"
  proof
    assume "t = 7"
    with assms w t obtain b where b: "parseType07 des pdp buf (c + 1) = Inr (b, off')" "blk = Some b"
      by (auto simp: scanBlock_def bindE_Inr_iff)
    from parseType07_kind [OF b(1)] obtain d where "b = DATA d" ..
    with b show "\<exists>d. parseType07 des pdp buf (c + 1) = Inr (DATA d, off') \<and> blk = Some (DATA d)"
      by blast
  qed
  have p8: "t < 1 \<or> 9 < t \<longrightarrow> blk = None"
    using assms w t by (auto simp: scanBlock_def)
  from t p1 p2 p3 p4 p5 p6 p7 p8
  show "\<exists>t. getUint8 buf c = Inr t
          \<and> (t = 1 \<longrightarrow> (\<exists>a. parseType01 buf (c + 1) = Inr (ARC a, off') \<and> blk = Some (ARC a)))
          \<and> (t = 2 \<longrightarrow> (\<exists>v. parseType02 buf (c + 1) = Inr (VIA v, off') \<and> blk = Some (VIA v)))
          \<and> (t = 3 \<or> t = 9 \<longrightarrow> blk = Some EmptyObject)
          \<and> (t = 4 \<or> t = 8 \<longrightarrow> blk = None)
          \<and> (t = 5 \<longrightarrow> (\<exists>s. parseType05 buf (c + 1) = Inr (SEGMENT s, off') \<and> blk = Some (SEGMENT s)))
          \<and> (t = 6 \<longrightarrow> (\<exists>x. parseType06 buf (c + 1) = Inr (TEXT x, off') \<and> blk = Some (TEXT x)))
          \<and> (t = 7 \<longrightarrow> (\<exists>d. parseType07 des pdp buf (c + 1) = Inr (DATA d, off')
                              \<and> blk = Some (DATA d)))
          \<and> (t < 1 \<or> 9 < t \<longrightarrow> blk = None)"
    by blast
qed


text \<open>Each version of the payload parser produces its own shape of pin block only.\<close>

lemma is_pin_block_iff: "is_pin_block sb \<longleftrightarrow> is_pin_array sb \<or> is_single_pin sb"
  by (cases sb) simp_all

lemma PDP_step_no_array:
  "PDP_parseSubBlock buf off = Inr (Some sb, off') \<Longrightarrow> \<not> is_pin_array sb"
  by (auto simp: PDP_parseSubBlock_def parseSubType01_def parseSubType05_def
        parseSubType06_def PDP_parseSubType09_def bindE_Inr_iff Let_def split: if_splits)

lemma P001_step_no_single:
  "P001_parseSubBlock buf t off = Inr (Some sb, off') \<Longrightarrow> \<not> is_single_pin sb"
  by (auto simp: P001_parseSubBlock_def parseSubType01_def parseSubType05_def
        parseSubType06_def P001_parseSubType09_def bindE_Inr_iff Let_def split: if_splits)

lemma PDP_loop_no_array:
  "PDP_subBlocks_loop buf off subs = Inr r \<Longrightarrow> \<forall>sb\<in>set subs. \<not> is_pin_array sb \<Longrightarrow>
   \<forall>sb\<in>set r. \<not> is_pin_array sb"
proof (induction buf off subs rule: PDP_subBlocks_loop.induct)
  case (1 buf off subs)
  note unfold = PDP_subBlocks_loop.simps [of buf off subs]
  show ?case
  proof (cases "off < int (length buf)")
    case False
    with "1.prems" show ?thesis by (simp add: unfold)
  next
    case True
    show ?thesis
    proof (cases "PDP_parseSubBlock buf off")
      case (Inl e)
      with True "1.prems"(1) show ?thesis by (simp add: unfold)
    next
      case (Inr res)
      obtain x o1 where res: "res = (x, o1)" by (cases res)
      show ?thesis
      proof (cases x)
        case None
        with True Inr res "1.prems" show ?thesis by (simp add: unfold)
      next
        case (Some sb)
        with Inr res have step: "PDP_parseSubBlock buf off = Inr (Some sb, o1)" by simp
        from True step "1.prems"(1) have rest: "PDP_subBlocks_loop buf o1 (subs @ [sb]) = Inr r"
          by (simp add: unfold)
        from PDP_step_no_array [OF step] "1.prems"(2)
        have "\<forall>s\<in>set (subs @ [sb]). \<not> is_pin_array s" by simp
        from "1.IH" [OF True step refl refl rest this] show ?thesis .
      qed
    qed
  qed
qed

lemma P001_loop_no_single:
  "P001_subBlocks_loop buf t pbs off subs = Inr r \<Longrightarrow> \<forall>sb\<in>set subs. \<not> is_single_pin sb \<Longrightarrow>
   \<forall>sb\<in>set r. \<not> is_single_pin sb"
proof (induction buf t pbs off subs rule: P001_subBlocks_loop.induct)
  case (1 buf t pbs off subs)
  note unfold = P001_subBlocks_loop.simps [of buf t pbs off subs]
  show ?case
  proof (cases "off + pbs < int (length buf)")
    case False
    with "1.prems" show ?thesis by (simp add: unfold)
  next
    case True
    show ?thesis
    proof (cases "P001_parseSubBlock buf t off")
      case (Inl e)
      with True "1.prems"(1) show ?thesis by (simp add: unfold)
    next
      case (Inr res)
      obtain x o1 where res: "res = (x, o1)" by (cases res)
      show ?thesis
      proof (cases x)
        case None
        with True Inr res "1.prems" show ?thesis by (simp add: unfold)
      next
        case (Some sb)
        with Inr res have step: "P001_parseSubBlock buf t off = Inr (Some sb, o1)" by simp
        from True step "1.prems"(1)
        have rest: "P001_subBlocks_loop buf t pbs o1 (subs @ [sb]) = Inr r"
          by (simp add: unfold)
        from P001_step_no_single [OF step] "1.prems"(2)
        have "\<forall>s\<in>set (subs @ [sb]). \<not> is_single_pin s" by simp
        from "1.IH" [OF True step refl refl rest this] show ?thesis .
      qed
    qed
  qed
qed

lemma same_sub_blocks_no_pin_block:
  assumes "PDP_parse buf = Inr r" and "P001_parse buf t = Inr r'"
    and "sub_blocks r = sub_blocks r'"
  shows "\<forall>sb\<in>set (sub_blocks r). \<not> is_pin_block sb"
proof -
  from assms(1) obtain h off subs where
    "PDP_subBlocks_loop (slice0 buf (4 + part_size h)) off [] = Inr subs"
    and "r = \<lparr>header = h, sub_blocks = subs\<rparr>"
    by (auto simp: PDP_parse_def bindE_Inr_iff Let_def)
  with PDP_loop_no_array [of _ off "[]" subs]
  have 1: "\<forall>sb\<in>set (sub_blocks r). \<not> is_pin_array sb" by simp
  from assms(2) obtain h' off' subs' where
    "P001_subBlocks_loop (slice0 buf (4 + part_size h')) t 0 off' [] = Inr subs'"
    and "r' = \<lparr>header = h', sub_blocks = subs'\<rparr>"
    by (auto simp: P001_parse_def bindE_Inr_iff Let_def)
  with P001_loop_no_single [of _ t 0 off' "[]" subs']
  have "\<forall>sb\<in>set (sub_blocks r'). \<not> is_single_pin sb" by simp
  with 1 assms(3) show ?thesis by (simp add: is_pin_block_iff)
qed

text \<open>Without a pin block the two versions return the same, the rotation apart.\<close>

lemma agree_without_pin_blocks:
  "(PDP_parse buf = Inr r \<and> (\<forall>sb\<in>set (sub_blocks r). \<not> is_pin_block sb) \<longrightarrow>
      (\<exists>rot. P001_parse buf t = Inr (r\<lparr>header := (header r)\<lparr>part_rotation := Some rot\<rparr>\<rparr>)))
   \<and> (P001_parse buf t = Inr r \<and> (\<forall>sb\<in>set (sub_blocks r). \<not> is_pin_block sb) \<longrightarrow>
      PDP_parse buf = Inr (r\<lparr>header := (header r)\<lparr>part_rotation := None\<rparr>\<rparr>))"
proof (intro conjI impI)
  assume "PDP_parse buf = Inr r \<and> (\<forall>sb\<in>set (sub_blocks r). \<not> is_pin_block sb)"
  then obtain h off subs where
    h: "PDP_parseHeader buf 0 = Inr (h, off)"
    and l: "PDP_subBlocks_loop (slice0 buf (4 + part_size h)) off [] = Inr subs"
    and r: "r = \<lparr>header = h, sub_blocks = subs\<rparr>"
    and np: "\<forall>sb\<in>set subs. \<not> is_pin_block sb"
    by (auto simp: PDP_parse_def bindE_Inr_iff Let_def)
  from PDP_header_agrees [OF h] obtain rot where
    h': "P001_parseHeader buf 0 = Inr (h\<lparr>part_rotation := Some rot\<rparr>, off)" by blast
  from PDP_loop_agrees [OF l np]
  have "P001_subBlocks_loop (slice0 buf (4 + part_size h)) t 0 off [] = Inr subs" .
  with h' r have "P001_parse buf t = Inr (r\<lparr>header := (header r)\<lparr>part_rotation := Some rot\<rparr>\<rparr>)"
    by (simp add: P001_parse_def Let_def)
  then show "\<exists>rot. P001_parse buf t = Inr (r\<lparr>header := (header r)\<lparr>part_rotation := Some rot\<rparr>\<rparr>)" ..
next
  assume "P001_parse buf t = Inr r \<and> (\<forall>sb\<in>set (sub_blocks r). \<not> is_pin_block sb)"
  then obtain h off subs where
    h: "P001_parseHeader buf 0 = Inr (h, off)"
    and l: "P001_subBlocks_loop (slice0 buf (4 + part_size h)) t 0 off [] = Inr subs"
    and r: "r = \<lparr>header = h, sub_blocks = subs\<rparr>"
    and np: "\<forall>sb\<in>set subs. \<not> is_pin_block sb"
    by (auto simp: P001_parse_def bindE_Inr_iff Let_def)
  from P001_header_agrees [OF h]
  have h': "PDP_parseHeader buf 0 = Inr (h\<lparr>part_rotation := None\<rparr>, off)" .
  from P001_loop_agrees [OF l refl np]
  have "PDP_subBlocks_loop (slice0 buf (4 + part_size h)) off [] = Inr subs" .
  with h' r show "PDP_parse buf = Inr (r\<lparr>header := (header r)\<lparr>part_rotation := None\<rparr>\<rparr>)"
    by (simp add: PDP_parse_def Let_def)
qed

section \<open>The claims\<close>

text \<open>
  C1 (as amended).  A cursor read past the end of the buffer during the top-level block
  scan is not contained: whenever the scan, started after the header, arrives at a
  cursor inside the budget and the buffer where the iteration throws, the same error
  leaves \<open>parse\<close>, and the blocks decoded up to there are not returned.
\<close>

theorem scan_error_leaves_parse:
  assumes "xorStep arrayBuffer = Inr buf"
    and "parseFileHeader buf = Inr (mainDataBlocksSize, startOffset)"
    and "scan_reaches des pdp buf (startOffset + mainDataBlocksSize)
           (startOffset, []) (off, blocks)"
    and "off < startOffset + mainDataBlocksSize"
    and "off < int (length buf)"
    and "scanBlock des pdp buf off = Inl err"
  shows "parse des pdp arrayBuffer = Inl err"
proof -
  have "parseMainDataBlocks_loop des pdp buf (startOffset + mainDataBlocksSize) startOffset [] =
        parseMainDataBlocks_loop des pdp buf (startOffset + mainDataBlocksSize) off blocks"
    using scan_reaches_loop [OF assms(3)] by simp
  also have "\<dots> = Inl err" by (rule loop_fail [OF assms(4,5,6)])
  finally show ?thesis
    using assms(1,2) by (simp add: parse_def parseMainDataBlocks_def)
qed

text \<open>
  The theorem at \<open>truncated_file\<close>: the VIA block is decoded, the next iteration reads
  four bytes where one is left, and the parse call ends with the RangeError.
\<close>

theorem scan_error_leaves_parse_witness:
  "xorStep truncated_file = Inr truncated_file
   \<and> parseFileHeader truncated_file = Inr (100, 0x44)
   \<and> scan_reaches (\<lambda>c. None) None truncated_file (0x44 + 100) (0x44, []) (105, [via_block])
   \<and> scanBlock (\<lambda>c. None) None truncated_file 105 = Inl RangeError
   \<and> parse (\<lambda>c. None) None truncated_file = Inl RangeError"
proof -
  have x: "xorStep truncated_file = Inr truncated_file" by code_simp
  have h: "parseFileHeader truncated_file = Inr (100, 0x44)" by code_simp
  have len: "(105::int) < int (length truncated_file)" by code_simp
  have s1: "scanBlock (\<lambda>c. None) None truncated_file 0x44 = Inr (Some via_block, 105)"
    by code_simp
  have s2: "scanBlock (\<lambda>c. None) None truncated_file 105 = Inl RangeError" by code_simp
  have "scan_reaches (\<lambda>c. None) None truncated_file (0x44 + 100)
          (105, push_if_truthy [] (Some via_block)) (105, [via_block])"
    by (simp add: push_if_truthy_def scan_here)
  then have r: "scan_reaches (\<lambda>c. None) None truncated_file (0x44 + 100) (0x44, []) (105, [via_block])"
    using len by (intro scan_step [OF _ _ s1]) simp_all
  have "parse (\<lambda>c. None) None truncated_file = Inl RangeError"
    using len by (intro scan_error_leaves_parse [OF x h r _ _ s2]) simp_all
  then show ?thesis by (intro conjI x h r s2)
qed

text \<open>
  C1 as stated fails at \<open>truncated_file\<close>, a buffer longer than 0x44 bytes: the claim
  has the parse call return the VIA block already decoded, the code throws.
\<close>

theorem truncated_file_parse_throws:
  "0x44 \<le> length truncated_file
   \<and> parse (\<lambda>c. None) None truncated_file \<noteq> Inr \<lparr>main_data_block = [via_block]\<rparr>
   \<and> parse (\<lambda>c. None) None truncated_file = Inl RangeError"
proof -
  have a: "0x44 \<le> length truncated_file" by code_simp
  have b: "parse (\<lambda>c. None) None truncated_file = Inl RangeError" by code_simp
  from a b show ?thesis by simp
qed

text \<open>
  C2 (the code at the failing input).  In \<open>marker_file\<close> byte 0x10 is 1 and the marker
  first occurs at offset 0x44, where a search over the bytes finds it.  \<open>parse\<close> hands
  the DataView to \<open>findSequence\<close>, so the computed length is the whole buffer (81 bytes)
  and every byte is XORed, the marker and the bytes after it included.
\<close>

theorem marker_file_xored_whole:
  "getUint8 marker_file 0x10 = Inr 1
   \<and> findSequence (Uint8ArrayOf marker_file) marker = 0x44
   \<and> findSequence (DataViewOf marker_file) marker = -1
   \<and> xoredDataLength marker_file = 81
   \<and> xorStep marker_file = Inr (map (\<lambda>b. b XOR 1) marker_file)
   \<and> drop 0x44 (map (\<lambda>b. b XOR 1) marker_file) \<noteq> drop 0x44 marker_file"
proof -
  have a: "getUint8 marker_file 0x10 = Inr 1" by code_simp
  have b: "findSequence (Uint8ArrayOf marker_file) marker = 0x44" by code_simp
  have c: "findSequence (DataViewOf marker_file) marker = -1" by code_simp
  have d: "xoredDataLength marker_file = 81" by code_simp
  have e: "xorStep marker_file = Inr (map (\<lambda>b. b XOR 1) marker_file)" by code_simp
  have f: "drop 0x44 (map (\<lambda>b. b XOR 1) marker_file) \<noteq> drop 0x44 marker_file" by code_simp
  show ?thesis by (intro conjI a b c d e f)
qed

text \<open>
  C8.  For every key \<open>k \<noteq> 0\<close> and buffer \<open>b\<close>, running the XOR loop with \<open>k\<close> twice
  over the same length gives back \<open>b\<close>.  The length is any \<open>len\<close> not beyond the
  buffer, as every length \<open>parse\<close> computes is.
\<close>

theorem xor_twice_restores:
  assumes "k \<noteq> 0" and "len \<le> int (length b)"
  shows "bindE (xorLoop k len 0 b) (\<lambda>b'. xorLoop k len 0 b') = Inr b"
proof -
  let ?b' = "map (\<lambda>j. if 0 \<le> int j \<and> int j < len then b ! j XOR word_of_int k else b ! j)
               [0..<length b]"
  have 1: "xorLoop k len 0 b = Inr ?b'"
    using assms(2) by (simp add: xorLoop_closed)
  have "len \<le> int (length ?b')" using assms(2) by simp
  then have 2: "xorLoop k len 0 ?b' =
     Inr (map (\<lambda>j. if 0 \<le> int j \<and> int j < len then ?b' ! j XOR word_of_int k else ?b' ! j)
            [0..<length ?b'])"
    by (rule xorLoop_closed [OF order_refl])
  have "map (\<lambda>j. if 0 \<le> int j \<and> int j < len then ?b' ! j XOR word_of_int k else ?b' ! j)
            [0..<length ?b'] = b"
    by (auto intro!: nth_equalityI simp: xor.assoc)
  with 1 2 show ?thesis by simp
qed

theorem xor_twice_restores_witness:
  "(0x5A::int) \<noteq> 0 \<and> xoredDataLength marker_file \<le> int (length marker_file)
   \<and> xorLoop 0x5A (xoredDataLength marker_file) 0 marker_file \<noteq> Inr marker_file
   \<and> bindE (xorLoop 0x5A (xoredDataLength marker_file) 0 marker_file)
        (\<lambda>b'. xorLoop 0x5A (xoredDataLength marker_file) 0 b') = Inr marker_file"
proof -
  have k: "(0x5A::int) \<noteq> 0" by simp
  have l: "xoredDataLength marker_file \<le> int (length marker_file)"
    by (simp add: xoredDataLength_whole)
  have c: "xorLoop 0x5A (xoredDataLength marker_file) 0 marker_file \<noteq> Inr marker_file"
    by code_simp
  show ?thesis by (intro conjI k l c xor_twice_restores [OF k l])
qed

text \<open>
  C9.  The buffer is a 0x44-byte header with \<open>mainDataBlocksSize = 13\<close>, followed by the
  bytes of \<open>via_bytes\<close>.  For every such header that is not obfuscated (byte 0x10 is
  zero), whatever its other bytes, the parse output is exactly one VIA block with
  \<open>x = 100\<close>, \<open>y = 200\<close>, \<open>outer_radius = 50\<close>, \<open>inner_radius = 20\<close>,
  \<open>layer_a_index = 1\<close>, \<open>layer_b_index = 3\<close>, \<open>net_index = 7\<close> and the empty text.
\<close>

theorem via_scenario:
  assumes "length hdr = 0x44" and "hdr ! 0x10 = 0" and "getUint32 hdr 0x40 = Inr 13"
  shows "parse des pdp (hdr @ via_bytes) =
           Inr \<lparr>main_data_block =
                  [VIA \<lparr>via_x = 100, via_y = 200, via_outer_radius = 50,
                        via_inner_radius = 20, via_layer_a_index = 1,
                        via_layer_b_index = 3, via_net_index = 7, via_text = []\<rparr>]\<rparr>"
proof -
  let ?b = "hdr @ via_bytes"
  have len: "int (length ?b) = 105" using assms(1) by (simp add: via_bytes_def)
  have x: "xorStep ?b = Inr ?b"
    using assms(1,2) by (simp add: xorStep_def getUint8_def in_range_def byte_at_def nth_append)
  have lo: "\<And>k. 0 \<le> k \<Longrightarrow> k < 68 \<Longrightarrow> byte_at ?b k = byte_at hdr k"
    using assms(1) by (auto simp: byte_at_def nth_append)
  have hi: "\<And>k. 68 \<le> k \<Longrightarrow> byte_at ?b k = byte_at via_bytes (k - 68)"
    using assms(1) by (auto simp: byte_at_def nth_append nat_diff_distrib)
  have h: "parseFileHeader ?b = Inr (13, 0x44)"
    using assms(1,3) len
    by (simp add: parseFileHeader_def getUint32_def in_range_def lo split: if_splits)
  have v: "byte_at via_bytes 0 = 2" "byte_at via_bytes 1 = 21" "byte_at via_bytes 2 = 0"
    "byte_at via_bytes 3 = 0" "byte_at via_bytes 4 = 0" "byte_at via_bytes 5 = 100"
    "byte_at via_bytes 6 = 0" "byte_at via_bytes 7 = 0" "byte_at via_bytes 8 = 0"
    "byte_at via_bytes 9 = 200" "byte_at via_bytes 10 = 0" "byte_at via_bytes 11 = 0"
    "byte_at via_bytes 12 = 0" "byte_at via_bytes 13 = 50" "byte_at via_bytes 14 = 0"
    "byte_at via_bytes 15 = 0" "byte_at via_bytes 16 = 0" "byte_at via_bytes 17 = 20"
    "byte_at via_bytes 18 = 0" "byte_at via_bytes 19 = 0" "byte_at via_bytes 20 = 0"
    "byte_at via_bytes 21 = 1" "byte_at via_bytes 22 = 0" "byte_at via_bytes 23 = 0"
    "byte_at via_bytes 24 = 0" "byte_at via_bytes 25 = 3" "byte_at via_bytes 26 = 0"
    "byte_at via_bytes 27 = 0" "byte_at via_bytes 28 = 0" "byte_at via_bytes 29 = 7"
    "byte_at via_bytes 30 = 0" "byte_at via_bytes 31 = 0" "byte_at via_bytes 32 = 0"
    "byte_at via_bytes 33 = 0" "byte_at via_bytes 34 = 0" "byte_at via_bytes 35 = 0"
    "byte_at via_bytes 36 = 0"
    by (simp_all add: byte_at_def via_bytes_def)
  have s: "scanBlock des pdp ?b 68 =
             Inr (Some (VIA \<lparr>via_x = 100, via_y = 200, via_outer_radius = 50,
                             via_inner_radius = 20, via_layer_a_index = 1,
                             via_layer_b_index = 3, via_net_index = 7, via_text = []\<rparr>), 105)"
    using len assms(1)
    by (simp add: scanBlock_def parseType02_def getUint32_def getInt32_def getUint8_def
          in_range_def hi v toInt32_def readString_def decode_view_def newUint8Array_def
          Array_from_def)
  have l: "parseMainDataBlocks des pdp ?b 13 0x44 =
             Inr [VIA \<lparr>via_x = 100, via_y = 200, via_outer_radius = 50,
                       via_inner_radius = 20, via_layer_a_index = 1,
                       via_layer_b_index = 3, via_net_index = 7, via_text = []\<rparr>]"
    using len s
    by (simp add: parseMainDataBlocks_def parseMainDataBlocks_loop.simps [of _ _ _ _ 68]
          parseMainDataBlocks_loop.simps [of _ _ _ _ 105] push_if_truthy_def)
  show ?thesis by (simp add: parse_def x h l)
qed

theorem via_scenario_witness:
  "length (zero_header 13) = 0x44 \<and> zero_header 13 ! 0x10 = 0
   \<and> getUint32 (zero_header 13) 0x40 = Inr 13
   \<and> parse (\<lambda>c. None) None (zero_header 13 @ via_bytes) =
       Inr \<lparr>main_data_block =
              [VIA \<lparr>via_x = 100, via_y = 200, via_outer_radius = 50,
                    via_inner_radius = 20, via_layer_a_index = 1,
                    via_layer_b_index = 3, via_net_index = 7, via_text = []\<rparr>]\<rparr>"
proof -
  have a: "length (zero_header 13) = 0x44" by code_simp
  have b: "zero_header 13 ! 0x10 = 0" by code_simp
  have c: "getUint32 (zero_header 13) 0x40 = Inr 13" by code_simp
  show ?thesis by (intro conjI a b c via_scenario [OF a b c])
qed

text \<open>
  C3 (the code at the failing input).  \<open>parseType07\<close> calls the payload parser with the
  buffer alone, so in src/unnamed/part\_001 \<open>cur_block_size\<close> is \<open>undefined\<close>.  For
  \<open>data_file\<close>, whose ciphertext of 96 bytes decrypts to \<open>pin_payload\<close>: called with
  the block size 96 the parser emits the pin, since \<open>31 + 60 <= 96\<close>; called as
  \<open>parseType07\<close> calls it, it emits no pin, and that is the \<open>parsed_data\<close> of the DATA
  block.
\<close>

theorem data_block_pins_not_emitted:
  "P001_parse pin_payload (Some 96) =
     Inr \<lparr>header = pin_payload_header, sub_blocks = [sub_type_09 60 [pin_payload_pin]]\<rparr>
   \<and> P001_parse pin_payload None =
     Inr \<lparr>header = pin_payload_header, sub_blocks = [sub_type_09 60 []]\<rparr>
   \<and> parse des_to_pin_payload (Some (\<lambda>b. P001_parse b None)) data_file =
     Inr \<lparr>main_data_block =
            [DATA \<lparr>block_size = 96, encrypted_data = replicate 96 0xEE,
                   decrypted_data = pin_payload,
                   parsed_data = Some \<lparr>header = pin_payload_header,
                                        sub_blocks = [sub_type_09 60 []]\<rparr>\<rparr>]\<rparr>"
proof -
  have a: "P001_parse pin_payload (Some 96) =
     Inr \<lparr>header = pin_payload_header, sub_blocks = [sub_type_09 60 [pin_payload_pin]]\<rparr>"
    by code_simp
  have b: "P001_parse pin_payload None =
     Inr \<lparr>header = pin_payload_header, sub_blocks = [sub_type_09 60 []]\<rparr>"
    by code_simp
  have c: "parse des_to_pin_payload (Some (\<lambda>b. P001_parse b None)) data_file =
     Inr \<lparr>main_data_block =
            [DATA \<lparr>block_size = 96, encrypted_data = replicate 96 0xEE,
                   decrypted_data = pin_payload,
                   parsed_data = Some \<lparr>header = pin_payload_header,
                                        sub_blocks = [sub_type_09 60 []]\<rparr>\<rparr>]\<rparr>"
    by code_simp
  show ?thesis by (intro conjI a b c)
qed

text \<open>
  C4 (as amended).  When \<open>parse\<close> returns, \<open>main_data_block\<close> is what the iterations
  of the scan pushed, in the order of the iterations, which is the order of their
  cursors in the file.  An iteration that meets four zero bytes pushes nothing.
  Otherwise it reads the tag \<open>t\<close>: tags 1, 2, 5, 6 and 7 push the ARC, VIA, SEGMENT,
  TEXT or DATA block that \<open>parseType01\<close>, \<open>02\<close>, \<open>05\<close>, \<open>06\<close> or \<open>07\<close> returns there;
  tags 3 and 9 push the empty object; tags 4 and 8 and every tag outside 1..9 push
  nothing.
\<close>

theorem placeholders_are_pushed:
  assumes "xorStep arrayBuffer = Inr buf"
    and "parseFileHeader buf = Inr (mainDataBlocksSize, startOffset)"
    and "parse des pdp arrayBuffer = Inr result"
  shows "main_data_block result =
           concat (map pushed
             (scan_trace des pdp buf (startOffset + mainDataBlocksSize) startOffset))
    \<and> sorted_wrt (<)
         (map fst (scan_trace des pdp buf (startOffset + mainDataBlocksSize) startOffset))
    \<and> (\<forall>(c, blk)\<in>set (scan_trace des pdp buf (startOffset + mainDataBlocksSize) startOffset).
         \<exists>off'. scanBlock des pdp buf c = Inr (blk, off')
           \<and> (getUint32 buf c = Inr 0 \<longrightarrow> blk = None)
           \<and> (getUint32 buf c \<noteq> Inr 0 \<longrightarrow>
                (\<exists>t. getUint8 buf c = Inr t
                  \<and> (t = 1 \<longrightarrow> (\<exists>a. parseType01 buf (c + 1) = Inr (ARC a, off')
                                      \<and> blk = Some (ARC a)))
                  \<and> (t = 2 \<longrightarrow> (\<exists>v. parseType02 buf (c + 1) = Inr (VIA v, off')
                                      \<and> blk = Some (VIA v)))
                  \<and> (t = 3 \<or> t = 9 \<longrightarrow> blk = Some EmptyObject)
                  \<and> (t = 4 \<or> t = 8 \<longrightarrow> blk = None)
                  \<and> (t = 5 \<longrightarrow> (\<exists>s. parseType05 buf (c + 1) = Inr (SEGMENT s, off')
                                      \<and> blk = Some (SEGMENT s)))
                  \<and> (t = 6 \<longrightarrow> (\<exists>x. parseType06 buf (c + 1) = Inr (TEXT x, off')
                                      \<and> blk = Some (TEXT x)))
                  \<and> (t = 7 \<longrightarrow> (\<exists>d. parseType07 des pdp buf (c + 1) = Inr (DATA d, off')
                                      \<and> blk = Some (DATA d)))
                  \<and> (t < 1 \<or> 9 < t \<longrightarrow> blk = None))))"
proof (intro conjI)
  let ?e = "startOffset + mainDataBlocksSize"
  from assms obtain blocks where
    l: "parseMainDataBlocks_loop des pdp buf ?e startOffset [] = Inr blocks"
    and r: "result = \<lparr>main_data_block = blocks\<rparr>"
    by (auto simp: parse_def parseMainDataBlocks_def bindE_Inr_iff)
  from loop_is_trace [OF l] r
  show "main_data_block result = concat (map pushed (scan_trace des pdp buf ?e startOffset))"
    by simp
  show "sorted_wrt (<) (map fst (scan_trace des pdp buf ?e startOffset))"
    by (rule trace_sorted)
  show "\<forall>(c, blk)\<in>set (scan_trace des pdp buf ?e startOffset).
         \<exists>off'. scanBlock des pdp buf c = Inr (blk, off')
           \<and> (getUint32 buf c = Inr 0 \<longrightarrow> blk = None)
           \<and> (getUint32 buf c \<noteq> Inr 0 \<longrightarrow>
                (\<exists>t. getUint8 buf c = Inr t
                  \<and> (t = 1 \<longrightarrow> (\<exists>a. parseType01 buf (c + 1) = Inr (ARC a, off')
                                      \<and> blk = Some (ARC a)))
                  \<and> (t = 2 \<longrightarrow> (\<exists>v. parseType02 buf (c + 1) = Inr (VIA v, off')
                                      \<and> blk = Some (VIA v)))
                  \<and> (t = 3 \<or> t = 9 \<longrightarrow> blk = Some EmptyObject)
                  \<and> (t = 4 \<or> t = 8 \<longrightarrow> blk = None)
                  \<and> (t = 5 \<longrightarrow> (\<exists>s. parseType05 buf (c + 1) = Inr (SEGMENT s, off')
                                      \<and> blk = Some (SEGMENT s)))
                  \<and> (t = 6 \<longrightarrow> (\<exists>x. parseType06 buf (c + 1) = Inr (TEXT x, off')
                                      \<and> blk = Some (TEXT x)))
                  \<and> (t = 7 \<longrightarrow> (\<exists>d. parseType07 des pdp buf (c + 1) = Inr (DATA d, off')
                                      \<and> blk = Some (DATA d)))
                  \<and> (t < 1 \<or> 9 < t \<longrightarrow> blk = None)))"
  proof (intro ballI, clarify)
    fix c blk
    assume "(c, blk) \<in> set (scan_trace des pdp buf ?e startOffset)"
    from trace_member [OF this] obtain off' where
      s: "scanBlock des pdp buf c = Inr (blk, off')" by auto
    from s scanBlock_emits [OF s]
    show "\<exists>off'. scanBlock des pdp buf c = Inr (blk, off')
           \<and> (getUint32 buf c = Inr 0 \<longrightarrow> blk = None)
           \<and> (getUint32 buf c \<noteq> Inr 0 \<longrightarrow>
                (\<exists>t. getUint8 buf c = Inr t
                  \<and> (t = 1 \<longrightarrow> (\<exists>a. parseType01 buf (c + 1) = Inr (ARC a, off')
                                      \<and> blk = Some (ARC a)))
                  \<and> (t = 2 \<longrightarrow> (\<exists>v. parseType02 buf (c + 1) = Inr (VIA v, off')
                                      \<and> blk = Some (VIA v)))
                  \<and> (t = 3 \<or> t = 9 \<longrightarrow> blk = Some EmptyObject)
                  \<and> (t = 4 \<or> t = 8 \<longrightarrow> blk = None)
                  \<and> (t = 5 \<longrightarrow> (\<exists>s. parseType05 buf (c + 1) = Inr (SEGMENT s, off')
                                      \<and> blk = Some (SEGMENT s)))
                  \<and> (t = 6 \<longrightarrow> (\<exists>x. parseType06 buf (c + 1) = Inr (TEXT x, off')
                                      \<and> blk = Some (TEXT x)))
                  \<and> (t = 7 \<longrightarrow> (\<exists>d. parseType07 des pdp buf (c + 1) = Inr (DATA d, off')
                                      \<and> blk = Some (DATA d)))
                  \<and> (t < 1 \<or> 9 < t \<longrightarrow> blk = None)))"
      by (intro exI [of _ off'] conjI) blast+
  qed
qed

theorem placeholders_are_pushed_witness:
  "xorStep mixed_file = Inr mixed_file
   \<and> parseFileHeader mixed_file = Inr (48, 0x44)
   \<and> parse (\<lambda>c. None) None mixed_file = Inr \<lparr>main_data_block = [EmptyObject, via_block]\<rparr>
   \<and> scan_trace (\<lambda>c. None) None mixed_file (0x44 + 48) 0x44 =
        [(68, None), (72, Some EmptyObject), (77, None), (79, Some via_block)]
   \<and> [EmptyObject, via_block] =
        concat (map pushed (scan_trace (\<lambda>c. None) None mixed_file (0x44 + 48) 0x44))
   \<and> getUint32 mixed_file 72 \<noteq> Inr 0 \<and> getUint8 mixed_file 72 = Inr 3
   \<and> (\<exists>off'. scanBlock (\<lambda>c. None) None mixed_file 72 = Inr (Some EmptyObject, off'))"
proof -
  have a: "xorStep mixed_file = Inr mixed_file" by code_simp
  have b: "parseFileHeader mixed_file = Inr (48, 0x44)" by code_simp
  have c: "parse (\<lambda>c. None) None mixed_file =
             Inr \<lparr>main_data_block = [EmptyObject, via_block]\<rparr>" by code_simp
  have d: "scan_trace (\<lambda>c. None) None mixed_file (0x44 + 48) 0x44 =
        [(68, None), (72, Some EmptyObject), (77, None), (79, Some via_block)]" by code_simp
  from placeholders_are_pushed [OF a b c]
  have "main_data_block \<lparr>main_data_block = [EmptyObject, via_block]\<rparr> =
        concat (map pushed (scan_trace (\<lambda>c. None) None mixed_file (0x44 + 48) 0x44))"
    by (rule conjunct1)
  then have e: "[EmptyObject, via_block] =
        concat (map pushed (scan_trace (\<lambda>c. None) None mixed_file (0x44 + 48) 0x44))"
    by simp
  have m: "(72, Some EmptyObject)
             \<in> set (scan_trace (\<lambda>c. None) None mixed_file (0x44 + 48) 0x44)"
    unfolding d by simp
  have g: "getUint32 mixed_file 72 \<noteq> Inr 0" by code_simp
  have h: "getUint8 mixed_file 72 = Inr 3" by code_simp
  from bspec [OF placeholders_are_pushed [OF a b c, THEN conjunct2, THEN conjunct2] m]
  have f: "\<exists>off'. scanBlock (\<lambda>c. None) None mixed_file 72 = Inr (Some EmptyObject, off')"
    by auto
  show ?thesis by (intro conjI a b c d e g h f)
qed

text \<open>
  C4 as stated fails at \<open>placeholder_file\<close>: its only block has tag 3, and the output
  holds the empty placeholder.
\<close>

theorem placeholder_file_keeps_empty_object:
  "parse (\<lambda>c. None) None placeholder_file = Inr \<lparr>main_data_block = [EmptyObject]\<rparr>"
  by code_simp

text \<open>
  C5 (as amended).  For a DATA block whose decryption fails, the DATA entry has the raw
  ciphertext bytes both as \<open>encrypted_data\<close> and as \<open>decrypted_data\<close>, the block is
  returned without an error and the cursor is right after the ciphertext, so that the
  outer scan goes on.  The payload parser is still attempted, on
  \<open>decryptedData.buffer\<close>, which after the fallback is the buffer under the view
  \<open>encryptedData\<close>: \<open>parsed_data\<close> is absent when no payload parser is defined or
  when the attempt throws, and otherwise it is the result of the attempt.
\<close>

theorem decrypt_failure_fallback:
  assumes "getUint32 buf off = Inr blockSize"
    and "in_range buf (off + 4) blockSize"
    and "des (take (nat blockSize) (drop (nat (off + 4)) buf)) = None"
  shows "parseType07 des pdp buf off =
           Inr (DATA \<lparr>block_size = blockSize,
                      encrypted_data = take (nat blockSize) (drop (nat (off + 4)) buf),
                      decrypted_data = take (nat blockSize) (drop (nat (off + 4)) buf),
                      parsed_data =
                        (case pdp of
                           None \<Rightarrow> None
                         | Some partDataParser_parse \<Rightarrow>
                             (case partDataParser_parse buf of
                                Inl e \<Rightarrow> None
                              | Inr result \<Rightarrow> Some result))\<rparr>,
                off + 4 + blockSize)"
  using assms
  by (simp add: parseType07_def newUint8Array_def Array_from_def Let_def
        split: option.splits sum.splits)

theorem decrypt_failure_fallback_witness:
  "getUint32 fallback_file 69 = Inr 3 \<and> in_range fallback_file (69 + 4) 3
   \<and> PDP_parse fallback_file = Inr \<lparr>header = zero_part_header, sub_blocks = []\<rparr>
   \<and> parseType07 (\<lambda>c. None) (Some PDP_parse) fallback_file 69 =
         Inr (DATA \<lparr>block_size = 3,
                    encrypted_data = take (nat 3) (drop (nat (69 + 4)) fallback_file),
                    decrypted_data = take (nat 3) (drop (nat (69 + 4)) fallback_file),
                    parsed_data = Some \<lparr>header = zero_part_header, sub_blocks = []\<rparr>\<rparr>,
              69 + 4 + 3)
   \<and> parseType07 (\<lambda>c. None) (Some (\<lambda>b. Inl RangeError)) fallback_file 69 =
         Inr (DATA \<lparr>block_size = 3,
                    encrypted_data = take (nat 3) (drop (nat (69 + 4)) fallback_file),
                    decrypted_data = take (nat 3) (drop (nat (69 + 4)) fallback_file),
                    parsed_data = None\<rparr>,
              69 + 4 + 3)"
proof -
  have a: "getUint32 fallback_file 69 = Inr 3" by code_simp
  have b: "in_range fallback_file (69 + 4) 3" by code_simp
  have c: "PDP_parse fallback_file = Inr \<lparr>header = zero_part_header, sub_blocks = []\<rparr>"
    by code_simp
  from decrypt_failure_fallback [OF a b, of "\<lambda>c. None" "Some PDP_parse"] c
  have d: "parseType07 (\<lambda>c. None) (Some PDP_parse) fallback_file 69 =
         Inr (DATA \<lparr>block_size = 3,
                    encrypted_data = take (nat 3) (drop (nat (69 + 4)) fallback_file),
                    decrypted_data = take (nat 3) (drop (nat (69 + 4)) fallback_file),
                    parsed_data = Some \<lparr>header = zero_part_header, sub_blocks = []\<rparr>\<rparr>,
              69 + 4 + 3)"
    by simp
  from decrypt_failure_fallback [OF a b, of "\<lambda>c. None" "Some (\<lambda>b. Inl RangeError)"]
  have e: "parseType07 (\<lambda>c. None) (Some (\<lambda>b. Inl RangeError)) fallback_file 69 =
         Inr (DATA \<lparr>block_size = 3,
                    encrypted_data = take (nat 3) (drop (nat (69 + 4)) fallback_file),
                    decrypted_data = take (nat 3) (drop (nat (69 + 4)) fallback_file),
                    parsed_data = None\<rparr>,
              69 + 4 + 3)"
    by simp
  show ?thesis by (intro conjI a b c d e)
qed

text \<open>
  C5 as stated fails at \<open>fallback_file\<close> when the decryption throws and the payload
  parser of src/part\_data\_parser.js is loaded: \<open>parsed_data\<close> is not absent.
\<close>

theorem fallback_file_parsed_data_present:
  "parse (\<lambda>c. None) (Some PDP_parse) fallback_file =
     Inr \<lparr>main_data_block =
            [DATA \<lparr>block_size = 3, encrypted_data = [0xDE, 0xAD, 0xBF],
                   decrypted_data = [0xDE, 0xAD, 0xBF],
                   parsed_data = Some \<lparr>header = zero_part_header, sub_blocks = []\<rparr>\<rparr>]\<rparr>"
  by code_simp

text \<open>
  C6.  After the part header is read, both versions of \<open>parse\<close> run the sub-block loop
  on the first \<open>4 + part_size\<close> bytes of the payload: every read of the loop is a read
  in that truncated buffer, which has no byte at an offset \<open>4 + part_size\<close> or beyond,
  and two payloads with the same header and the same first \<open>4 + part_size\<close> bytes have
  the same parse result.
\<close>

theorem sub_blocks_within_part_size:
  assumes "P001_parseHeader b1 0 = Inr (hdr, off)"
    and "P001_parseHeader b2 0 = Inr (hdr, off)"
    and "take (nat (4 + part_size hdr)) b1 = take (nat (4 + part_size hdr)) b2"
  shows "P001_parse b1 t =
           bindE (P001_subBlocks_loop (take (nat (4 + part_size hdr)) b1) t 0 off [])
             (\<lambda>subs. Inr \<lparr>header = hdr, sub_blocks = subs\<rparr>)
         \<and> PDP_parse b1 =
           bindE (PDP_subBlocks_loop (take (nat (4 + part_size hdr)) b1) off [])
             (\<lambda>subs. Inr \<lparr>header = hdr\<lparr>part_rotation := None\<rparr>, sub_blocks = subs\<rparr>)
         \<and> (\<forall>k w. in_range (take (nat (4 + part_size hdr)) b1) k w \<longrightarrow> k + w \<le> 4 + part_size hdr)
         \<and> P001_parse b1 t = P001_parse b2 t
         \<and> PDP_parse b1 = PDP_parse b2"
proof -
  have ps: "0 \<le> part_size hdr"
    using assms(1) by (auto simp: P001_parseHeader_def bindE_Inr_iff dest!: getUint32_Inr)
  have h1: "PDP_parseHeader b1 0 = Inr (hdr\<lparr>part_rotation := None\<rparr>, off)"
    using assms(1) by (auto simp: PDP_parseHeader_def P001_parseHeader_def bindE_Inr_iff)
  have h2: "PDP_parseHeader b2 0 = Inr (hdr\<lparr>part_rotation := None\<rparr>, off)"
    using assms(2) by (auto simp: PDP_parseHeader_def P001_parseHeader_def bindE_Inr_iff)
  have p1: "P001_parse b1 t =
           bindE (P001_subBlocks_loop (take (nat (4 + part_size hdr)) b1) t 0 off [])
             (\<lambda>subs. Inr \<lparr>header = hdr, sub_blocks = subs\<rparr>)"
    using assms(1) by (simp add: P001_parse_def slice0_def Let_def)
  have p1b: "P001_parse b2 t =
           bindE (P001_subBlocks_loop (take (nat (4 + part_size hdr)) b2) t 0 off [])
             (\<lambda>subs. Inr \<lparr>header = hdr, sub_blocks = subs\<rparr>)"
    using assms(2) by (simp add: P001_parse_def slice0_def Let_def)
  have p2: "PDP_parse b1 =
           bindE (PDP_subBlocks_loop (take (nat (4 + part_size hdr)) b1) off [])
             (\<lambda>subs. Inr \<lparr>header = hdr\<lparr>part_rotation := None\<rparr>, sub_blocks = subs\<rparr>)"
    using h1 by (simp add: PDP_parse_def slice0_def Let_def)
  have p2b: "PDP_parse b2 =
           bindE (PDP_subBlocks_loop (take (nat (4 + part_size hdr)) b2) off [])
             (\<lambda>subs. Inr \<lparr>header = hdr\<lparr>part_rotation := None\<rparr>, sub_blocks = subs\<rparr>)"
    using h2 by (simp add: PDP_parse_def slice0_def Let_def)
  have p3: "\<forall>k w. in_range (take (nat (4 + part_size hdr)) b1) k w \<longrightarrow> k + w \<le> 4 + part_size hdr"
    using ps by (auto simp: in_range_def min_def split: if_splits)
  have p4: "P001_parse b1 t = P001_parse b2 t" by (simp only: p1 p1b assms(3))
  have p5: "PDP_parse b1 = PDP_parse b2" by (simp only: p2 p2b assms(3))
  from p1 p2 p3 p4 p5 show ?thesis by blast
qed

theorem sub_blocks_within_part_size_witness:
  "P001_parseHeader (neg_padding_payload @ [5, 5, 5]) 0 = Inr (neg_padding_header, 26)
   \<and> P001_parseHeader (neg_padding_payload @ [1, 2, 3, 4]) 0 = Inr (neg_padding_header, 26)
   \<and> take (nat (4 + part_size neg_padding_header)) (neg_padding_payload @ [5, 5, 5]) =
       take (nat (4 + part_size neg_padding_header)) (neg_padding_payload @ [1, 2, 3, 4])
   \<and> P001_parse (neg_padding_payload @ [5, 5, 5]) None =
       P001_parse (neg_padding_payload @ [1, 2, 3, 4]) None
   \<and> PDP_parse (neg_padding_payload @ [5, 5, 5]) = PDP_parse (neg_padding_payload @ [1, 2, 3, 4])"
proof -
  have a: "P001_parseHeader (neg_padding_payload @ [5, 5, 5]) 0 = Inr (neg_padding_header, 26)"
    by code_simp
  have b: "P001_parseHeader (neg_padding_payload @ [1, 2, 3, 4]) 0 = Inr (neg_padding_header, 26)"
    by code_simp
  have c: "take (nat (4 + part_size neg_padding_header)) (neg_padding_payload @ [5, 5, 5]) =
       take (nat (4 + part_size neg_padding_header)) (neg_padding_payload @ [1, 2, 3, 4])"
    by code_simp
  from sub_blocks_within_part_size [OF a b c, of None]
  have "P001_parse (neg_padding_payload @ [5, 5, 5]) None =
          P001_parse (neg_padding_payload @ [1, 2, 3, 4]) None"
    and "PDP_parse (neg_padding_payload @ [5, 5, 5]) = PDP_parse (neg_padding_payload @ [1, 2, 3, 4])"
    by blast+
  then show ?thesis by (intro conjI a b c)
qed

text \<open>
  C7.  No loop of the payload parsers can run forever: in both versions the relation
  between the cursor before and after an iteration that lets the loop go on is
  well-founded, for the sub-block loop of \<open>parse\<close> and for the loops inside the pin
  block.  A sub-block of tag 1 moves the cursor by \<open>4 + block_size\<close> from where its
  size field starts: forwards, also when \<open>block_size < 12\<close> and the padding size is
  negative.  The functions above are total, so \<open>parse\<close> returns a result or throws.
\<close>

theorem sub_block_loops_terminate:
  "wf {(off', off). off + 0 < int (length buf) \<and>
         (\<exists>sb. P001_parseSubBlock buf cur off = Inr (Some sb, off'))}
   \<and> wf {(off', off). js_le (off + blockSize) cur \<and> (\<exists>p. P001_parsePin buf off = Inr (p, off'))}
   \<and> wf {(off', off). off < int (length buf) \<and>
         (\<exists>sb. PDP_parseSubBlock buf off = Inr (Some sb, off'))}
   \<and> wf {(off', off). off < blockEnd - 4 \<and> (\<exists>sp. parsePinSubType buf off = Inr (Some sp, off'))}
   \<and> (\<forall>bs layer x1 y1 pad off'.
         parseSubType01 buf off = Inr (sub_type_01 bs layer x1 y1 pad, off') \<longrightarrow>
         pad = bs - 12 \<and> off' = off + 4 + bs \<and> off < off')"
proof (intro conjI allI impI)
  show "wf {(off', off). off + 0 < int (length buf) \<and>
         (\<exists>sb. P001_parseSubBlock buf cur off = Inr (Some sb, off'))}"
    by (rule wf_subset [OF wf_measure [of "\<lambda>off. nat (int (length buf) - off)"]])
       (auto dest!: P001_parseSubBlock_advances)
  show "wf {(off', off). js_le (off + blockSize) cur \<and> (\<exists>p. P001_parsePin buf off = Inr (p, off'))}"
    by (rule wf_subset [OF wf_measure [of "\<lambda>off. case cur of None \<Rightarrow> 0
          | Some c \<Rightarrow> nat (c + 1 - (off + blockSize))"]])
       (auto simp: js_le_def split: option.splits dest!: P001_parsePin_advances)
  show "wf {(off', off). off < int (length buf) \<and>
         (\<exists>sb. PDP_parseSubBlock buf off = Inr (Some sb, off'))}"
    by (rule wf_subset [OF wf_measure [of "\<lambda>off. nat (int (length buf) - off)"]])
       (auto dest!: PDP_parseSubBlock_advances)
  show "wf {(off', off). off < blockEnd - 4 \<and> (\<exists>sp. parsePinSubType buf off = Inr (Some sp, off'))}"
    by (rule wf_subset [OF wf_measure [of "\<lambda>off. nat (blockEnd - 4 - off)"]])
       (auto dest!: parsePinSubType_advances)
next
  fix bs layer x1 y1 pad off'
  assume a: "parseSubType01 buf off = Inr (sub_type_01 bs layer x1 y1 pad, off')"
  then show "pad = bs - 12" by (auto simp: parseSubType01_def bindE_Inr_iff Let_def)
  from a show "off' = off + 4 + bs" by (auto simp: parseSubType01_def bindE_Inr_iff Let_def)
  from a show "off < off'"
    by (auto simp: parseSubType01_def bindE_Inr_iff Let_def dest!: getUint32_Inr)
qed


theorem sub_block_loops_terminate_witness:
  "parseSubType01 neg_padding_payload 27 = Inr (sub_type_01 0 0 7 8 (- 12), 31)
   \<and> (- 12 :: int) = 0 - 12 \<and> (31 :: int) = 27 + 4 + 0 \<and> (27 :: int) < 31
   \<and> P001_parse neg_padding_payload None =
       Inr \<lparr>header = neg_padding_header, sub_blocks = [sub_type_01 0 0 7 8 (- 12)]\<rparr>"
proof -
  have a: "parseSubType01 neg_padding_payload 27 = Inr (sub_type_01 0 0 7 8 (- 12), 31)"
    by code_simp
  have b: "P001_parse neg_padding_payload None =
       Inr \<lparr>header = neg_padding_header, sub_blocks = [sub_type_01 0 0 7 8 (- 12)]\<rparr>"
    by code_simp
  from sub_block_loops_terminate [of neg_padding_payload None 0 0 27] a
  have "(- 12 :: int) = 0 - 12 \<and> (31 :: int) = 27 + 4 + 0 \<and> (27 :: int) < 31"
    by blast
  with a b show ?thesis by blast
qed

text \<open>
  C10 (as amended).  The two versions agree on every payload that has no pin block:
  when one of them returns a result without a sub-block of tag 9, the other returns the
  same sub-block list and the same header fields, except for \<open>part_rotation\<close>, which
  only src/unnamed/part\_001 reports.  When both return, they return the same sub-block
  list only in that case: a result that holds a pin block is never the sub-block list
  of the other version.
\<close>

theorem parsers_agree_without_pin_blocks:
  "(PDP_parse buf = Inr r \<and> (\<forall>sb\<in>set (sub_blocks r). \<not> is_pin_block sb) \<longrightarrow>
      (\<exists>rot. P001_parse buf t = Inr (r\<lparr>header := (header r)\<lparr>part_rotation := Some rot\<rparr>\<rparr>)))
   \<and> (P001_parse buf t = Inr r \<and> (\<forall>sb\<in>set (sub_blocks r). \<not> is_pin_block sb) \<longrightarrow>
      PDP_parse buf = Inr (r\<lparr>header := (header r)\<lparr>part_rotation := None\<rparr>\<rparr>))
   \<and> (PDP_parse buf = Inr r \<and> P001_parse buf t = Inr r' \<and> sub_blocks r = sub_blocks r' \<longrightarrow>
      (\<forall>sb\<in>set (sub_blocks r). \<not> is_pin_block sb))"
  using agree_without_pin_blocks [of buf r t] same_sub_blocks_no_pin_block [of buf r t r']
  by blast

theorem parsers_agree_without_pin_blocks_witness:
  "PDP_parse neg_padding_payload =
     Inr \<lparr>header = neg_padding_header\<lparr>part_rotation := None\<rparr>,
          sub_blocks = [sub_type_01 0 0 7 8 (- 12)]\<rparr>
   \<and> \<not> is_pin_block (sub_type_01 0 0 7 8 (- 12))
   \<and> (\<exists>rot. P001_parse neg_padding_payload (Some 48) =
         Inr \<lparr>header = neg_padding_header\<lparr>part_rotation := Some rot\<rparr>,
              sub_blocks = [sub_type_01 0 0 7 8 (- 12)]\<rparr>)"
proof -
  let ?r = "\<lparr>header = neg_padding_header\<lparr>part_rotation := None\<rparr>,
             sub_blocks = [sub_type_01 0 0 7 8 (- 12)]\<rparr>"
  have a: "PDP_parse neg_padding_payload = Inr ?r" by code_simp
  have b: "\<not> is_pin_block (sub_type_01 0 0 7 8 (- 12))" by simp
  from a b parsers_agree_without_pin_blocks
    [where buf = neg_padding_payload and r = ?r and t = "Some 48", THEN conjunct1]
  have "\<exists>rot. P001_parse neg_padding_payload (Some 48) =
          Inr (?r\<lparr>header := (header ?r)\<lparr>part_rotation := Some rot\<rparr>\<rparr>)"
    by simp
  then have "\<exists>rot. P001_parse neg_padding_payload (Some 48) =
         Inr \<lparr>header = neg_padding_header\<lparr>part_rotation := Some rot\<rparr>,
              sub_blocks = [sub_type_01 0 0 7 8 (- 12)]\<rparr>"
    by simp
  with a b show ?thesis by blast
qed

text \<open>
  C10 as stated fails at \<open>single_pin_payload\<close>: src/part\_data\_parser.js reads one pin
  with its fields in the sub-block itself, src/unnamed/part\_001 returns a pin array,
  empty when it has no block size, and throws when it is given the size of the payload.
\<close>

theorem single_pin_payload_parsers_differ:
  "PDP_parse single_pin_payload =
     Inr \<lparr>header = single_pin_header\<lparr>part_rotation := None\<rparr>,
          sub_blocks = [sub_type_09_single 36 0 11 22 0 0 0 [] 6 5 [] 4]\<rparr>
   \<and> P001_parse single_pin_payload None =
     Inr \<lparr>header = single_pin_header, sub_blocks = [sub_type_09 36 []]\<rparr>
   \<and> P001_parse single_pin_payload (Some 67) = Inl RangeError"
proof -
  have a: "PDP_parse single_pin_payload =
     Inr \<lparr>header = single_pin_header\<lparr>part_rotation := None\<rparr>,
          sub_blocks = [sub_type_09_single 36 0 11 22 0 0 0 [] 6 5 [] 4]\<rparr>"
    by code_simp
  have b: "P001_parse single_pin_payload None =
     Inr \<lparr>header = single_pin_header, sub_blocks = [sub_type_09 36 []]\<rparr>"
    by code_simp
  have c: "P001_parse single_pin_payload (Some 67) = Inl RangeError" by code_simp
  show ?thesis by (intro conjI a b c)
qed

end
